theory Spec2Isabelle
  imports Main
begin

section \<open>backlang: line-order transcoding and interpreter dispatch\<close>

text \<open>
  A shallow embedding of the Go program \<^verbatim>\<open>backlang\<close> (files \<^verbatim>\<open>main.go\<close> and
  \<^verbatim>\<open>router.go\<close>). A Go \<^verbatim>\<open>[]byte\<close> and a Go \<^verbatim>\<open>string\<close> are both sequences of
  bytes; an Isabelle \<^typ>\<open>char\<close> is one byte, so both are modelled as \<^typ>\<open>char list\<close>.
\<close>

subsection \<open>Byte buffers\<close>

type_synonym bytes = "char list"

definition nl :: char where
  "nl = CHR 0x0A"

definition cr :: char where
  "cr = CHR 0x0D"

text \<open>The Go slice expression \<^verbatim>\<open>b[lo:hi]\<close>.\<close>

definition slice :: "'a list \<Rightarrow> nat \<Rightarrow> nat \<Rightarrow> 'a list" where
  "slice b lo hi = take (hi - lo) (drop lo b)"

subsection \<open>Helpers of main.go\<close>

text \<open>
  \<^verbatim>\<open>splitLinesPreserveEndings\<close>: the \<^verbatim>\<open>for i := 0; i < len(b); i++\<close> loop, with the
  loop variables \<^verbatim>\<open>i\<close>, \<^verbatim>\<open>start\<close> and \<^verbatim>\<open>lines\<close> as arguments; it returns the final
  \<^verbatim>\<open>start\<close> and \<^verbatim>\<open>lines\<close>.
\<close>

function splitLoop :: "bytes \<Rightarrow> nat \<Rightarrow> nat \<Rightarrow> bytes list \<Rightarrow> nat \<times> bytes list" where
  "splitLoop b i start lines =
     (if i < length b then
        (if b ! i = nl then
           (let end = i + 1 in splitLoop b (i + 1) end (lines @ [slice b start end]))
         else splitLoop b (i + 1) start lines)
      else (start, lines))"
  by pat_completeness auto
termination
  by (relation "measure (\<lambda>(b, i, start, lines). length b - i)") auto

declare splitLoop.simps [simp del]

text \<open>
  After the loop a trailing line without newline is copied into a fresh slice one byte
  longer, whose last byte is set to a newline. The \<^verbatim>\<open>else if\<close> branch of the source is
  empty.
\<close>

definition splitLinesPreserveEndings :: "bytes \<Rightarrow> bytes list" where
  "splitLinesPreserveEndings b =
     (case splitLoop b 0 0 [] of (start, lines) \<Rightarrow>
        if start < length b then
          (let lastLine = drop start b @ [nl] in lines @ [lastLine])
        else lines)"

text \<open>
  \<^verbatim>\<open>reverse\<close>: the in-place swap loop \<^verbatim>\<open>for i, j := 0, len(s)-1; i < j; i, j = i+1, j-1\<close>.
  The indices are Go \<^verbatim>\<open>int\<close>s; \<^verbatim>\<open>j\<close> starts at \<open>-1\<close> on the empty slice.
\<close>

function reverseLoop :: "'a list \<Rightarrow> int \<Rightarrow> int \<Rightarrow> 'a list" where
  "reverseLoop s i j =
     (if i < j then
        reverseLoop (s[nat i := s ! nat j, nat j := s ! nat i]) (i + 1) (j - 1)
      else s)"
  by pat_completeness auto
termination
  by (relation "measure (\<lambda>(s, i, j). nat (j - i))") auto

declare reverseLoop.simps [simp del]

definition reverse :: "'a list \<Rightarrow> 'a list" where
  "reverse s = reverseLoop s 0 (int (length s) - 1)"

text \<open>\<^verbatim>\<open>join\<close>: \<^verbatim>\<open>nil\<close> (the empty buffer) for no chunks, else the chunks appended in order.\<close>

fun joinLoop :: "bytes \<Rightarrow> bytes list \<Rightarrow> bytes" where
  "joinLoop out [] = out"
| "joinLoop out (c # chunks) = joinLoop (out @ c) chunks"

definition join :: "bytes list \<Rightarrow> bytes" where
  "join chunks = (if length chunks = 0 then [] else joinLoop [] chunks)"

subsection \<open>The buffer transformations of encode and decode\<close>

definition marker :: bytes where
  "marker = ''##BCKL.NNL##'' @ [nl]"

text \<open>
  The part of \<^verbatim>\<open>encode\<close> between \<^verbatim>\<open>os.ReadFile\<close> and \<^verbatim>\<open>os.WriteFile\<close>: from the bytes
  read to the bytes written.
\<close>

definition hasTrailingNewline :: "bytes \<Rightarrow> bool" where
  "hasTrailingNewline data = (length data > 0 \<and> data ! (length data - 1) = nl)"

definition encodeBytes :: "bytes \<Rightarrow> bytes" where
  "encodeBytes data =
     (let lines = reverse (splitLinesPreserveEndings data);
          lines = (if \<not> hasTrailingNewline data \<and> length data > 0
                   then [marker] @ lines else lines)
      in join lines)"

text \<open>
  The part of \<^verbatim>\<open>decode\<close> (and, verbatim, of \<^verbatim>\<open>run\<close>) between reading and writing.
  \<^verbatim>\<open>stripMarker\<close> is the marker check, giving \<^verbatim>\<open>hasMarker\<close> and the remaining lines;
  \<^verbatim>\<open>stripLastNewline\<close> is the final \<^verbatim>\<open>if hasMarker && len(lines) > 0\<close> block.
\<close>

definition stripMarker :: "bytes list \<Rightarrow> bool \<times> bytes list" where
  "stripMarker lines =
     (if length lines > 0 \<and> lines ! 0 = marker then (True, drop 1 lines)
      else (False, lines))"

definition stripLastNewline :: "bool \<Rightarrow> bytes list \<Rightarrow> bytes list" where
  "stripLastNewline hasMarker lines =
     (if hasMarker \<and> length lines > 0 then
        (let lastLine = lines ! (length lines - 1) in
         if length lastLine > 0 \<and> lastLine ! (length lastLine - 1) = nl
         then lines[length lines - 1 := take (length lastLine - 1) lastLine]
         else lines)
      else lines)"

definition decodeBytes :: "bytes \<Rightarrow> bytes" where
  "decodeBytes data =
     (case stripMarker (splitLinesPreserveEndings data) of (hasMarker, lines) \<Rightarrow>
        join (stripLastNewline hasMarker (reverse lines)))"


subsection \<open>Line records, described structurally\<close>

text \<open>
  \<open>linesFrom cur cs\<close> reads the bytes \<open>cs\<close> from left to right, \<open>cur\<close> being the
  bytes of the line read so far: every newline closes a record, and bytes left over at
  the end form a last record, which gets a newline of its own. It is the reference
  against which the index loop of \<^verbatim>\<open>splitLinesPreserveEndings\<close> is proved.
\<close>

fun linesFrom :: "bytes \<Rightarrow> bytes \<Rightarrow> bytes list" where
  "linesFrom cur [] = (if cur = [] then [] else [cur @ [nl]])"
| "linesFrom cur (c # cs) =
     (if c = nl then (cur @ [nl]) # linesFrom [] cs else linesFrom (cur @ [c]) cs)"

text \<open>A record: some bytes without newline, then exactly one newline.\<close>

definition isRecord :: "bytes \<Rightarrow> bool" where
  "isRecord r = (r \<noteq> [] \<and> last r = nl \<and> nl \<notin> set (butlast r))"

subsection \<open>Package strings\<close>

text \<open>
  The functions of Go's standard library that the program calls, on byte strings.
  \<^verbatim>\<open>strings.ToLower\<close> adds \<^verbatim>\<open>'a' - 'A'\<close> to every byte from \<^verbatim>\<open>'A'\<close> to \<^verbatim>\<open>'Z'\<close> of a
  string of ASCII bytes. On a string with a byte from 128 on it returns
  \<^verbatim>\<open>Map(unicode.ToLower, s)\<close>, which decodes the string and maps every code point through
  the case tables of package \<^verbatim>\<open>unicode\<close> (U+212A to \<^verbatim>\<open>k\<close>, U+0130 to \<^verbatim>\<open>i\<close>, an invalid
  byte to U+FFFD), so that the result may differ in length from the string. These tables
  are not part of the program: \<open>ToLower\<close> takes that function as its argument
  \<open>mapLower\<close>, and nothing is assumed of it.
\<close>

definition isUpperASCII :: "char \<Rightarrow> bool" where
  "isUpperASCII c = (65 \<le> (of_char c :: nat) \<and> (of_char c :: nat) \<le> 90)"

definition lowerByte :: "char \<Rightarrow> char" where
  "lowerByte c = (if isUpperASCII c then char_of ((of_char c :: nat) + 32) else c)"

definition isASCII :: "string \<Rightarrow> bool" where
  "isASCII s = list_all (\<lambda>c. (of_char c :: nat) < 128) s"

definition ToLower :: "(string \<Rightarrow> string) \<Rightarrow> string \<Rightarrow> string" where
  "ToLower mapLower s = (if isASCII s then map lowerByte s else mapLower s)"

text \<open>
  \<^verbatim>\<open>HasPrefix\<close>, \<^verbatim>\<open>HasSuffix\<close> and \<^verbatim>\<open>TrimSuffix\<close> compare lengths and slices, as in Go.
  \<^verbatim>\<open>LastIndex\<close> is the index of the last occurrence of \<open>sub\<close>, or \<open>-1\<close>: the search goes
  down from the last position at which \<open>sub\<close> fits.
\<close>

definition HasPrefix :: "string \<Rightarrow> string \<Rightarrow> bool" where
  "HasPrefix s pre = (length s \<ge> length pre \<and> take (length pre) s = pre)"

definition HasSuffix :: "string \<Rightarrow> string \<Rightarrow> bool" where
  "HasSuffix s suf = (length s \<ge> length suf \<and> drop (length s - length suf) s = suf)"

definition TrimSuffix :: "string \<Rightarrow> string \<Rightarrow> string" where
  "TrimSuffix s suf = (if HasSuffix s suf then take (length s - length suf) s else s)"

fun lastIndexFrom :: "string \<Rightarrow> string \<Rightarrow> nat \<Rightarrow> int" where
  "lastIndexFrom s sub 0 = (if take (length sub) s = sub then 0 else - 1)"
| "lastIndexFrom s sub (Suc i) =
     (if take (length sub) (drop (Suc i) s) = sub then int (Suc i) else lastIndexFrom s sub i)"

definition LastIndex :: "string \<Rightarrow> string \<Rightarrow> int" where
  "LastIndex s sub =
     (if length sub > length s then - 1 else lastIndexFrom s sub (length s - length sub))"

subsection \<open>Package path/filepath, on Unix\<close>

text \<open>
  The separator is the slash and there are no volume names. \<^verbatim>\<open>Clean\<close> follows Go's
  implementation: \<open>path\<close> is what is left to read, \<open>out\<close> the buffer written so far (its
  length is Go's \<^verbatim>\<open>out.w\<close>), and \<open>dotdot\<close> the index in the buffer below which a
  \<^verbatim>\<open>..\<close> element cannot remove anything. \<open>backLoop\<close> is the loop that removes the last
  element of the buffer for a \<^verbatim>\<open>..\<close>.
\<close>

definition Separator :: char where
  "Separator = CHR ''/''"

function backLoop :: "string \<Rightarrow> nat \<Rightarrow> nat \<Rightarrow> nat" where
  "backLoop out w dotdot =
     (if w > dotdot \<and> out ! w \<noteq> Separator then backLoop out (w - 1) dotdot else w)"
  by pat_completeness auto
termination
  by (relation "measure (\<lambda>(out, w, dotdot). w)") auto

declare backLoop.simps [simp del]

function (sequential) cleanLoop :: "bool \<Rightarrow> string \<Rightarrow> string \<Rightarrow> nat \<Rightarrow> string" where
  "cleanLoop rooted [] out dotdot = out"
| "cleanLoop rooted (c # cs) out dotdot =
     (if c = Separator then cleanLoop rooted cs out dotdot
      else if c = CHR ''.'' \<and> (cs = [] \<or> hd cs = Separator) then
        cleanLoop rooted cs out dotdot
      else if c = CHR ''.'' \<and> hd cs = CHR ''.'' \<and> (tl cs = [] \<or> hd (tl cs) = Separator) then
        (if length out > dotdot then
           cleanLoop rooted (tl cs) (take (backLoop out (length out - 1) dotdot) out) dotdot
         else if \<not> rooted then
           (let out1 = (if length out > 0 then out @ [Separator] else out);
                out2 = out1 @ ''..''
            in cleanLoop rooted (tl cs) out2 (length out2))
         else cleanLoop rooted (tl cs) out dotdot)
      else
        (let out1 = (if rooted \<and> length out \<noteq> 1 \<or> \<not> rooted \<and> length out \<noteq> 0
                     then out @ [Separator] else out)
         in cleanLoop rooted (dropWhile (\<lambda>x. x \<noteq> Separator) cs)
              (out1 @ c # takeWhile (\<lambda>x. x \<noteq> Separator) cs) dotdot))"
  by pat_completeness auto
termination
  by (relation "measure (\<lambda>(rooted, path, out, dotdot). length path)")
     (simp_all add: length_dropWhile_le less_Suc_eq_le)

definition Clean :: "string \<Rightarrow> string" where
  "Clean path =
     (if path = [] then ''.''
      else
        (let rooted = (hd path = Separator);
             out = (if rooted then cleanLoop rooted (drop 1 path) [Separator] 1
                    else cleanLoop rooted path [] 0)
         in if length out = 0 then ''.'' else out))"

text \<open>
  \<^verbatim>\<open>Dir\<close>, \<^verbatim>\<open>Base\<close> and \<^verbatim>\<open>Ext\<close> scan the path from its end. \<open>lastSepLoop path k\<close> is one
  more than the index of the last separator among the first \<open>k\<close> bytes (0 when there is
  none), \<open>trailingSepLoop path k\<close> is \<open>k\<close> less the separators that end the first \<open>k\<close>
  bytes. \<^verbatim>\<open>Join\<close> is given for two elements, which is how the program calls it.
\<close>

fun lastSepLoop :: "string \<Rightarrow> nat \<Rightarrow> nat" where
  "lastSepLoop path 0 = 0"
| "lastSepLoop path (Suc i) = (if path ! i = Separator then Suc i else lastSepLoop path i)"

definition Dir :: "string \<Rightarrow> string" where
  "Dir path = Clean (take (lastSepLoop path (length path)) path)"

fun trailingSepLoop :: "string \<Rightarrow> nat \<Rightarrow> nat" where
  "trailingSepLoop path 0 = 0"
| "trailingSepLoop path (Suc i) = (if path ! i = Separator then trailingSepLoop path i else Suc i)"

definition Base :: "string \<Rightarrow> string" where
  "Base path =
     (if path = [] then ''.''
      else
        (let path = take (trailingSepLoop path (length path)) path;
             path = drop (lastSepLoop path (length path)) path
         in if path = [] then [Separator] else path))"

fun extLoop :: "string \<Rightarrow> nat \<Rightarrow> string" where
  "extLoop path 0 = []"
| "extLoop path (Suc i) =
     (if path ! i = Separator then []
      else if path ! i = CHR ''.'' then drop i path
      else extLoop path i)"

definition Ext :: "string \<Rightarrow> string" where
  "Ext path = extLoop path (length path)"

definition Join :: "string \<Rightarrow> string \<Rightarrow> string" where
  "Join a b =
     (if a \<noteq> [] then Clean (a @ [Separator] @ b)
      else if b \<noteq> [] then Clean b
      else [])"

subsection \<open>fmt: the verb %d\<close>

text \<open>The decimal digits of a Go \<^verbatim>\<open>int\<close>, with a minus sign for a negative one.\<close>

function natDigits :: "nat \<Rightarrow> string" where
  "natDigits n =
     (if n < 10 then [char_of (48 + n)]
      else natDigits (n div 10) @ [char_of (48 + n mod 10)])"
  by pat_completeness auto
termination
  by (relation "measure id") auto

declare natDigits.simps [simp del]

definition fmtInt :: "int \<Rightarrow> string" where
  "fmtInt i = (if i < 0 then ''-'' @ natDigits (nat (- i)) else natDigits (nat i))"

subsection \<open>main.go: stripLastBck\<close>

text \<open>
  \<^verbatim>\<open>idx\<close> is an index into the lower-cased base name and is compared with the length of
  the base name itself, as in the source. \<open>mapLower\<close> is the argument of \<open>ToLower\<close>.
\<close>

definition stripLastBck :: "(string \<Rightarrow> string) \<Rightarrow> string \<Rightarrow> string" where
  "stripLastBck mapLower path =
     (let dir = Dir path;
          base = Base path;
          idx = LastIndex (ToLower mapLower base) ''.bck'';
          base = (if idx \<ge> 0 \<and> idx = int (length base) - 4 then take (nat idx) base else base)
      in if dir = ''.'' then base else Join dir base)"

subsection \<open>strings.TrimSpace\<close>

text \<open>
  \<^verbatim>\<open>TrimSpace\<close> removes the leading and the trailing white space of Unicode. \<open>spaceRunes\<close>
  lists the UTF-8 encodings of the code points for which \<^verbatim>\<open>unicode.IsSpace\<close> holds: the
  six of ASCII, U+0085, U+00A0, U+1680, U+2000 to U+200A, U+2028, U+2029, U+202F, U+205F
  and U+3000. No encoding is a prefix or a suffix of another, so trimming is to remove
  such an encoding from the start, and then from the end, as long as there is one; the
  fuel of the two recursions is the length of the string, and every round removes a byte
  at least.
\<close>

definition spaceRunes :: "string list" where
  "spaceRunes =
     [[CHR 0x09], [CHR 0x0A], [CHR 0x0B], [CHR 0x0C], [CHR 0x0D], [CHR 0x20],
      [CHR 0xC2, CHR 0x85], [CHR 0xC2, CHR 0xA0],
      [CHR 0xE1, CHR 0x9A, CHR 0x80],
      [CHR 0xE2, CHR 0x80, CHR 0x80], [CHR 0xE2, CHR 0x80, CHR 0x81],
      [CHR 0xE2, CHR 0x80, CHR 0x82], [CHR 0xE2, CHR 0x80, CHR 0x83],
      [CHR 0xE2, CHR 0x80, CHR 0x84], [CHR 0xE2, CHR 0x80, CHR 0x85],
      [CHR 0xE2, CHR 0x80, CHR 0x86], [CHR 0xE2, CHR 0x80, CHR 0x87],
      [CHR 0xE2, CHR 0x80, CHR 0x88], [CHR 0xE2, CHR 0x80, CHR 0x89],
      [CHR 0xE2, CHR 0x80, CHR 0x8A],
      [CHR 0xE2, CHR 0x80, CHR 0xA8], [CHR 0xE2, CHR 0x80, CHR 0xA9],
      [CHR 0xE2, CHR 0x80, CHR 0xAF], [CHR 0xE2, CHR 0x81, CHR 0x9F],
      [CHR 0xE3, CHR 0x80, CHR 0x80]]"

fun spaceAtStart :: "string list \<Rightarrow> string \<Rightarrow> nat" where
  "spaceAtStart [] s = 0"
| "spaceAtStart (r # rs) s = (if HasPrefix s r then length r else spaceAtStart rs s)"

fun spaceAtEnd :: "string list \<Rightarrow> string \<Rightarrow> nat" where
  "spaceAtEnd [] s = 0"
| "spaceAtEnd (r # rs) s = (if HasSuffix s r then length r else spaceAtEnd rs s)"

fun trimLeftLoop :: "nat \<Rightarrow> string \<Rightarrow> string" where
  "trimLeftLoop 0 s = s"
| "trimLeftLoop (Suc fuel) s =
     (let n = spaceAtStart spaceRunes s in if n = 0 then s else trimLeftLoop fuel (drop n s))"

fun trimRightLoop :: "nat \<Rightarrow> string \<Rightarrow> string" where
  "trimRightLoop 0 s = s"
| "trimRightLoop (Suc fuel) s =
     (let n = spaceAtEnd spaceRunes s in
      if n = 0 then s else trimRightLoop fuel (take (length s - n) s))"

definition TrimSpace :: "string \<Rightarrow> string" where
  "TrimSpace s = (let s = trimLeftLoop (length s) s in trimRightLoop (length s) s)"

subsection \<open>bufio.Scanner: the first line\<close>

text \<open>
  The first call of \<^verbatim>\<open>Scan\<close> on a scanner with the default split function and buffer:
  no token on an empty file, nor when the first 64 KiB hold no newline; else the bytes
  before the first newline, or all bytes when there is none, without a final carriage
  return.
\<close>

definition MaxScanTokenSize :: nat where
  "MaxScanTokenSize = 64 * 1024"

definition dropCR :: "bytes \<Rightarrow> bytes" where
  "dropCR data =
     (if length data > 0 \<and> data ! (length data - 1) = cr then take (length data - 1) data
      else data)"

definition scanFirst :: "bytes \<Rightarrow> string option" where
  "scanFirst content =
     (if content = [] then None
      else
        (let line = takeWhile (\<lambda>c. c \<noteq> nl) content in
         if length line \<ge> MaxScanTokenSize then None else Some (dropCR line)))"

subsection \<open>The operating system\<close>

text \<open>
  What the program sees of its environment. \<open>fsRead\<close> is what reading a path gives, its
  bytes or the error; \<open>fsStat\<close> tells whether \<^verbatim>\<open>os.Stat\<close> succeeds on a path; \<open>fsWriteErr\<close>
  is the error that writing a path meets, if any; \<open>stdinData\<close> is the unread standard
  input and \<open>stdinErr\<close> a read error on it other than the end of input; \<open>runErr\<close> is the
  error with which the child process of a command line ends, if any. A successful write
  makes the path readable with the bytes written. \<open>ioTrace\<close> records the operations on
  files, on standard input and on processes, in the order in which the program performs
  them. \<open>unicodeLower\<close> is \<^verbatim>\<open>Map(unicode.ToLower, s)\<close> of the Go library the program is
  built with, the argument with which the program calls \<open>ToLower\<close>; no operation changes
  it.
\<close>

datatype oserr = ErrNotExist | ErrPermission | ErrOther string

datatype event =
    ReadFile string
  | WriteFile string bytes
  | Open string
  | ReadStdin
  | Exec string "string list"

record world =
  fsRead :: "string \<Rightarrow> oserr + bytes"
  fsStat :: "string \<Rightarrow> bool"
  fsWriteErr :: "string \<Rightarrow> oserr option"
  stdinData :: bytes
  stdinErr :: "string option"
  runErr :: "string \<Rightarrow> string list \<Rightarrow> string option"
  stdoutData :: bytes
  stderrData :: bytes
  ioTrace :: "event list"
  unicodeLower :: "string \<Rightarrow> string"

definition logEvent :: "event \<Rightarrow> world \<Rightarrow> world" where
  "logEvent e w = w\<lparr>ioTrace := ioTrace w @ [e]\<rparr>"

definition osReadFile :: "world \<Rightarrow> string \<Rightarrow> (oserr + bytes) \<times> world" where
  "osReadFile w p = (fsRead w p, logEvent (ReadFile p) w)"

definition osWriteFile :: "world \<Rightarrow> string \<Rightarrow> bytes \<Rightarrow> oserr option \<times> world" where
  "osWriteFile w p d =
     (case fsWriteErr w p of
        Some e \<Rightarrow> (Some e, logEvent (WriteFile p d) w)
      | None \<Rightarrow>
          (None, logEvent (WriteFile p d)
                   (w\<lparr>fsRead := (fsRead w)(p := Inr d), fsStat := (fsStat w)(p := True)\<rparr>)))"

definition printOut :: "string \<Rightarrow> world \<Rightarrow> world" where
  "printOut s w = w\<lparr>stdoutData := stdoutData w @ s\<rparr>"

definition printErrText :: "string \<Rightarrow> world \<Rightarrow> world" where
  "printErrText s w = w\<lparr>stderrData := stderrData w @ s\<rparr>"

subsection \<open>Errors of the program\<close>

text \<open>
  A Go \<^verbatim>\<open>error\<close> of the program is a message; \<open>errorText\<close> is its \<^verbatim>\<open>Error()\<close>.
  \<open>OSError\<close> is an error of the operating system passed on as it is.
\<close>

datatype error =
    FileNotFound string
  | PermissionDenied string
  | OSError string
  | InvalidFormat
  | NoInterpreterFound string
  | InterpreterLaunchFailure string string

definition quoted :: "string \<Rightarrow> string" where
  "quoted s = [CHR 0x27] @ s @ [CHR 0x27]"

fun errorText :: "error \<Rightarrow> string" where
  "errorText (FileNotFound b) = ''Error: File '' @ quoted b @ '' not found''"
| "errorText (PermissionDenied b) = ''Error: Permission denied accessing '' @ quoted b"
| "errorText (OSError m) = m"
| "errorText InvalidFormat = ''Error: run command only accepts .bck files''"
| "errorText (NoInterpreterFound b) = ''Error: No interpreter found for '' @ quoted b"
| "errorText (InterpreterLaunchFailure c m) = ''Error: Failed to execute with '' @ c @ '': '' @ m"

fun wrapPathErr :: "oserr \<Rightarrow> string \<Rightarrow> error" where
  "wrapPathErr ErrNotExist path = FileNotFound (Base path)"
| "wrapPathErr ErrPermission path = PermissionDenied (Base path)"
| "wrapPathErr (ErrOther m) path = OSError m"

definition printErr :: "error \<Rightarrow> world \<Rightarrow> world" where
  "printErr err w = printErrText (errorText err @ [nl]) w"

definition fileExists :: "world \<Rightarrow> string \<Rightarrow> bool" where
  "fileExists w p = fsStat w p"

subsection \<open>main.go: nextAvailableName\<close>

text \<open>
  The loop \<^verbatim>\<open>for i := 1; ; i++\<close> has no bound, and \<^verbatim>\<open>i\<close> is a 64-bit \<^verbatim>\<open>int\<close> that wraps
  around: \<open>nextLoop\<close> is a partial function, \<open>None\<close> when every candidate exists.
\<close>

definition maxInt64 :: int where
  "maxInt64 = 2 ^ 63 - 1"

definition incrInt :: "int \<Rightarrow> int" where
  "incrInt i = (if i = maxInt64 then - (2 ^ 63) else i + 1)"

definition candidateName :: "string \<Rightarrow> string \<Rightarrow> string \<Rightarrow> int \<Rightarrow> string" where
  "candidateName dir name ext i = Join dir (name @ ''_'' @ fmtInt i @ ext)"

partial_function (option) nextLoop ::
  "world \<Rightarrow> string \<Rightarrow> string \<Rightarrow> string \<Rightarrow> int \<Rightarrow> string option" where
  "nextLoop w dir name ext i =
     (if \<not> fileExists w (candidateName dir name ext i) then Some (candidateName dir name ext i)
      else nextLoop w dir name ext (incrInt i))"

definition nextAvailableName :: "world \<Rightarrow> string \<Rightarrow> string option" where
  "nextAvailableName w path =
     (let dir = Dir path;
          base = Base path;
          ext = Ext base;
          name = TrimSuffix base ext
      in nextLoop w dir name ext 1)"

subsection \<open>router.go: the language registry\<close>

record Language =
  Name :: string
  Extensions :: "string list"
  Shebangs :: "string list"
  Command :: string
  Args :: "string list"

definition getSupportedLanguages :: "Language list" where
  "getSupportedLanguages =
     [\<lparr>Name = ''Python'',
       Extensions = [''.py''],
       Shebangs = [''#!/usr/bin/env python3'', ''#!/usr/bin/python3'',
                   ''#!/usr/bin/env python'', ''#!/usr/bin/python''],
       Command = ''python3'',
       Args = []\<rparr>]"

text \<open>
  The inner \<^verbatim>\<open>for\<close> statements of \<^verbatim>\<open>detectLanguage\<close>: does some shebang of the descriptor
  start the line, is the extension one of the descriptor's.
\<close>

fun anyShebang :: "string \<Rightarrow> string list \<Rightarrow> bool" where
  "anyShebang firstLine [] = False"
| "anyShebang firstLine (shebang # rest) =
     (if HasPrefix firstLine shebang then True else anyShebang firstLine rest)"

fun anyExtension :: "string \<Rightarrow> string list \<Rightarrow> bool" where
  "anyExtension ext [] = False"
| "anyExtension ext (langExt # rest) = (if ext = langExt then True else anyExtension ext rest)"

text \<open>The outer \<^verbatim>\<open>for\<close> statements, which return the first descriptor that matches.\<close>

fun shebangLoop :: "string \<Rightarrow> Language list \<Rightarrow> Language option" where
  "shebangLoop firstLine [] = None"
| "shebangLoop firstLine (lang # languages) =
     (if anyShebang firstLine (Shebangs lang) then Some lang
      else shebangLoop firstLine languages)"

fun extensionLoop :: "string \<Rightarrow> Language list \<Rightarrow> Language option" where
  "extensionLoop ext [] = None"
| "extensionLoop ext (lang # languages) =
     (if anyExtension ext (Extensions lang) then Some lang
      else extensionLoop ext languages)"

text \<open>\<^verbatim>\<open>firstLine\<close>: the trimmed text of the first token, or empty when \<^verbatim>\<open>Scan\<close> fails.\<close>

definition firstLineOf :: "bytes \<Rightarrow> string" where
  "firstLineOf content = (case scanFirst content of Some text \<Rightarrow> TrimSpace text | None \<Rightarrow> [])"

text \<open>\<^verbatim>\<open>detectLanguage\<close> over a registry; the program's registry is \<^verbatim>\<open>getSupportedLanguages()\<close>.\<close>

definition detectIn :: "Language list \<Rightarrow> world \<Rightarrow> string \<Rightarrow> (error + Language) \<times> world" where
  "detectIn languages w filePath =
     (let w1 = logEvent (Open filePath) w in
      case fsRead w filePath of
        Inl err \<Rightarrow> (Inl (wrapPathErr err filePath), w1)
      | Inr content \<Rightarrow>
          (let firstLine = firstLineOf content;
               byShebang = (if HasPrefix firstLine ''#!'' then shebangLoop firstLine languages
                            else None)
           in case byShebang of
                Some lang \<Rightarrow> (Inr lang, w1)
              | None \<Rightarrow>
                  (let ext = ToLower (unicodeLower w) (Ext filePath) in
                   case extensionLoop ext languages of
                     Some lang \<Rightarrow> (Inr lang, w1)
                   | None \<Rightarrow> (Inl (NoInterpreterFound (Base filePath)), w1))))"

definition detectLanguage :: "world \<Rightarrow> string \<Rightarrow> (error + Language) \<times> world" where
  "detectLanguage w filePath = detectIn getSupportedLanguages w filePath"

definition executeFile :: "world \<Rightarrow> Language \<Rightarrow> string \<Rightarrow> error option \<times> world" where
  "executeFile w lang filePath =
     (let args = Args lang @ [filePath];
          w1 = logEvent (Exec (Command lang) args) w
      in case runErr w (Command lang) args of
           Some m \<Rightarrow> (Some (InterpreterLaunchFailure (Command lang) m), w1)
         | None \<Rightarrow> (None, w1))"

subsection \<open>main.go: prompt, encode, decode\<close>

text \<open>
  \<open>arrow\<close> is the UTF-8 encoding of the arrow in the messages. \<open>readLine\<close> is
  \<^verbatim>\<open>ReadString('\n')\<close>: the input up to its first newline, the newline included, or all of
  it at the end of input.
\<close>

definition arrow :: string where
  "arrow = [CHR 0xE2, CHR 0x86, CHR 0x92]"

definition readLine :: "bytes \<Rightarrow> bytes" where
  "readLine input =
     (let line = takeWhile (\<lambda>c. c \<noteq> nl) input in
      if length line < length input then line @ [nl] else line)"

definition promptOverwrite :: "world \<Rightarrow> string \<Rightarrow> (error + bool) \<times> world" where
  "promptOverwrite w target =
     (let w1 = printOut (''File '' @ quoted (Base target) @ '' exists. Overwrite? (y/n): '') w;
          w2 = logEvent ReadStdin w1
      in case stdinErr w of
           Some m \<Rightarrow> (Inl (OSError m), w2)
         | None \<Rightarrow>
             (let line = readLine (stdinData w);
                  w3 = w2\<lparr>stdinData := drop (length line) (stdinData w)\<rparr>;
                  line = TrimSpace (ToLower (unicodeLower w) line)
              in (Inr (line = ''y'' \<or> line = ''yes''), w3)))"

definition encode :: "world \<Rightarrow> string \<Rightarrow> error option \<times> world" where
  "encode w inPath =
     (case osReadFile w inPath of
        (Inl err, w1) \<Rightarrow> (Some (wrapPathErr err inPath), w1)
      | (Inr data, w1) \<Rightarrow>
          (let outPath = inPath @ ''.bck'' in
           case osWriteFile w1 outPath (encodeBytes data) of
             (Some err, w2) \<Rightarrow> (Some (wrapPathErr err outPath), w2)
           | (None, w2) \<Rightarrow>
               (None, printOut (''Encoded '' @ quoted (Base inPath) @ '' '' @ arrow @ '' '' @
                                 quoted (Base outPath) @ [nl]) w2)))"

text \<open>
  The output path of \<^verbatim>\<open>decode\<close>: the stripped path, or on a collision what the prompt
  decides. \<^verbatim>\<open>None\<close> in the last component: \<^verbatim>\<open>nextAvailableName\<close> does not return.
\<close>

definition decodeOutPath :: "world \<Rightarrow> string \<Rightarrow> (error + string) option \<times> world" where
  "decodeOutPath w inPath =
     (let outPath = stripLastBck (unicodeLower w) inPath in
      if fileExists w outPath then
        (case promptOverwrite w outPath of
           (Inl err, w1) \<Rightarrow> (Some (Inl err), w1)
         | (Inr overwrite, w1) \<Rightarrow>
             if \<not> overwrite then (map_option Inr (nextAvailableName w1 outPath), w1)
             else (Some (Inr outPath), w1))
      else (Some (Inr outPath), w))"

definition decode :: "world \<Rightarrow> string \<Rightarrow> (error option \<times> world) option" where
  "decode w inPath =
     (case osReadFile w inPath of
        (Inl err, w1) \<Rightarrow> Some (Some (wrapPathErr err inPath), w1)
      | (Inr data, w1) \<Rightarrow>
          (case decodeOutPath w1 inPath of
             (None, w2) \<Rightarrow> None
           | (Some (Inl err), w2) \<Rightarrow> Some (Some err, w2)
           | (Some (Inr outPath), w2) \<Rightarrow>
               (case osWriteFile w2 outPath (decodeBytes data) of
                  (Some err, w3) \<Rightarrow> Some (Some (wrapPathErr err outPath), w3)
                | (None, w3) \<Rightarrow>
                    Some (None, printOut (''Decoded '' @ quoted (Base inPath) @ '' '' @ arrow @
                                 '' '' @ quoted (Base outPath) @ [nl]) w3))))"

subsection \<open>router.go: run\<close>

definition runOutPath :: "world \<Rightarrow> string \<Rightarrow> string option" where
  "runOutPath w inPath =
     (let outPath = stripLastBck (unicodeLower w) inPath in
      if fileExists w outPath then nextAvailableName w outPath else Some outPath)"

definition run :: "world \<Rightarrow> string \<Rightarrow> (error option \<times> world) option" where
  "run w inPath =
     (if \<not> HasSuffix (ToLower (unicodeLower w) inPath) ''.bck'' then Some (Some InvalidFormat, w)
      else
        (case osReadFile w inPath of
           (Inl err, w1) \<Rightarrow> Some (Some (wrapPathErr err inPath), w1)
         | (Inr data, w1) \<Rightarrow>
             (case runOutPath w1 inPath of
                None \<Rightarrow> None
              | Some outPath \<Rightarrow>
                  (case osWriteFile w1 outPath (decodeBytes data) of
                     (Some err, w2) \<Rightarrow> Some (Some (wrapPathErr err outPath), w2)
                   | (None, w2) \<Rightarrow>
                       (let w3 = printOut (''Decoded '' @ quoted (Base inPath) @ '' '' @ arrow @
                                   '' '' @ quoted (Base outPath) @ [nl]) w2
                        in case detectLanguage w3 outPath of
                             (Inl err, w4) \<Rightarrow> Some (Some err, w4)
                           | (Inr lang, w4) \<Rightarrow>
                               Some (executeFile
                                 (printOut (''Detected '' @ Name lang @ '', running with '' @
                                    Command lang @ ''...'' @ [nl]) w4) lang outPath))))))"

subsection \<open>main.go: main\<close>

definition usageText :: string where
  "usageText = ''Usage: backlang <encode|decode|run> <file>'' @ [nl]"

text \<open>The exit status after a call that returned \<^verbatim>\<open>err\<close>: 1 and the message on standard
  error, or 0, when \<^verbatim>\<open>main\<close> returns.\<close>

definition exitWith :: "error option \<times> world \<Rightarrow> int \<times> world" where
  "exitWith r = (case r of (Some err, w) \<Rightarrow> (1, printErr err w) | (None, w) \<Rightarrow> (0, w))"

definition main :: "world \<Rightarrow> string list \<Rightarrow> (int \<times> world) option" where
  "main w osArgs =
     (if length osArgs \<noteq> 3 then Some (2, printErrText usageText w)
      else
        (let cmd = osArgs ! 1; inPath = osArgs ! 2 in
         if cmd = ''encode'' then Some (exitWith (encode w inPath))
         else if cmd = ''decode'' then
           (if \<not> HasSuffix (ToLower (unicodeLower w) inPath) ''.bck'' then
              Some (2, printErrText (''Error: decode command only accepts .bck files'' @ [nl]) w)
            else map_option exitWith (decode w inPath))
         else if cmd = ''run'' then map_option exitWith (run w inPath)
         else Some (2, printErrText usageText w)))"

subsection \<open>Names used in the statements\<close>

text \<open>
  The final path segment with one trailing \<^verbatim>\<open>.bck\<close> removed, whatever the case of its
  letters, or unchanged when it does not end so: what the specification says
  \<^verbatim>\<open>stripLastBck\<close> does to the segment.
\<close>

definition stripBase :: "(string \<Rightarrow> string) \<Rightarrow> string \<Rightarrow> string" where
  "stripBase mapLower base =
     (if HasSuffix (ToLower mapLower base) ''.bck'' then take (length base - 4) base else base)"

text \<open>
  The \<open>i\<close>-th alternate name of a path, \<^verbatim>\<open>base_i.ext\<close> in the path's directory: the
  candidate that \<^verbatim>\<open>nextAvailableName\<close> builds in round \<open>i\<close> of its loop.
\<close>

definition numbered :: "string \<Rightarrow> int \<Rightarrow> string" where
  "numbered path i =
     candidateName (Dir path) (TrimSuffix (Base path) (Ext (Base path))) (Ext (Base path)) i"

text \<open>
  The first line of a file as a reader of the file sees it: the bytes before the first
  newline, or all bytes when there is none, without a final carriage return.
\<close>

definition firstLineBytes :: "bytes \<Rightarrow> bytes" where
  "firstLineBytes content = dropCR (takeWhile (\<lambda>c. c \<noteq> nl) content)"

text \<open>The only descriptor of the registry.\<close>

definition python :: Language where
  "python = hd getSupportedLanguages"

subsection \<open>Worlds for the examples\<close>

text \<open>
  \<open>world0\<close> is an empty file system with empty standard input, in which every write
  and every child process succeeds; \<open>withFile\<close> adds a readable file. The paths and the
  input of the examples are ASCII strings, on which \<open>unicodeLower\<close> is not called; it is
  the identity in \<open>world0\<close>.
\<close>

definition world0 :: world where
  "world0 = \<lparr>fsRead = (\<lambda>p. Inl ErrNotExist), fsStat = (\<lambda>p. False), fsWriteErr = (\<lambda>p. None),
     stdinData = [], stdinErr = None, runErr = (\<lambda>c a. None), stdoutData = [], stderrData = [],
     ioTrace = [], unicodeLower = (\<lambda>s. s)\<rparr>"

definition withFile :: "string \<Rightarrow> bytes \<Rightarrow> world \<Rightarrow> world" where
  "withFile p d w = w\<lparr>fsRead := (fsRead w)(p := Inr d), fsStat := (fsStat w)(p := True)\<rparr>"

definition sampleWorld :: world where
  "sampleWorld = withFile ''file.bck'' (''b'' @ [nl] @ ''a'' @ [nl]) world0"

definition collisionWorld :: world where
  "collisionWorld =
     (withFile ''out.txt.bck'' (''b'' @ [nl] @ ''a'' @ [nl])
        (withFile ''out.txt'' ''x'' (withFile ''out_1.txt'' ''y'' world0)))\<lparr>stdinData := ''n'' @ [nl]\<rparr>"

definition toolScript :: bytes where
  "toolScript = ''  #!/usr/bin/env python3 -u'' @ [cr, nl] @ ''print(1)'' @ [nl]"

definition libScript :: bytes where
  "libScript = ''print(2)'' @ [nl]"

definition scriptWorld :: world where
  "scriptWorld =
     withFile ''tool.xyz'' toolScript
       (withFile ''Lib.PY'' libScript (withFile ''notes.txt'' ''hello'' world0))"

text \<open>A script whose first line is a Python shebang followed by 64 KiB of option text.\<close>

definition longLine :: bytes where
  "longLine = ''#!/usr/bin/python '' @ replicate 65536 (CHR ''x'')"

definition longScript :: bytes where
  "longScript = longLine @ [nl] @ ''print(1)'' @ [nl]"

text \<open>
  A path that ends in \<^verbatim>\<open>.bc\<close> and the Kelvin sign U+212A, whose lower case is the letter
  \<^verbatim>\<open>k\<close>, and a world whose \<open>unicodeLower\<close> is Go's on this path.
\<close>

definition kelvinPath :: string where
  "kelvinPath = ''x.bc'' @ [CHR 0xE2, CHR 0x84, CHR 0xAA]"

definition kelvinWorld :: world where
  "kelvinWorld = world0\<lparr>unicodeLower := (\<lambda>s. if s = kelvinPath then ''x.bck'' else s)\<rparr>"

section \<open>Properties\<close>

subsection \<open>The helpers compute what their names say\<close>



lemma join_concat: "join chunks = concat chunks"
proof -
  have "joinLoop out cs = out @ concat cs" for out cs
    by (induction cs arbitrary: out) simp_all
  then show ?thesis by (simp add: join_def)
qed

lemma reverseLoop_length: "length (reverseLoop s i j) = length s"
  by (induction s i j rule: reverseLoop.induct) (subst reverseLoop.simps, simp)

lemma reverseLoop_nth:
  "0 \<le> i \<Longrightarrow> j < int (length s) \<Longrightarrow> k < length s \<Longrightarrow>
   reverseLoop s i j ! k =
     (if i \<le> int k \<and> int k \<le> j then s ! nat (i + j - int k) else s ! k)"
proof (induction s i j arbitrary: k rule: reverseLoop.induct)
  case (1 s i j)
  show ?case
  proof (cases "i < j")
    case False
    then have "reverseLoop s i j = s" by (subst reverseLoop.simps) simp
    moreover have "i \<le> int k \<and> int k \<le> j \<Longrightarrow> nat (i + j - int k) = k" using False by linarith
    ultimately show ?thesis by auto
  next
    case True
    let ?s' = "s[nat i := s ! nat j, nat j := s ! nat i]"
    have eq: "reverseLoop s i j = reverseLoop ?s' (i + 1) (j - 1)"
      using True by (subst reverseLoop.simps) simp
    have IH: "reverseLoop ?s' (i + 1) (j - 1) ! k =
       (if i + 1 \<le> int k \<and> int k \<le> j - 1 then ?s' ! nat (i + 1 + (j - 1) - int k) else ?s' ! k)"
      using "1.IH"[OF True, of k] "1.prems" by simp
    show ?thesis
      unfolding eq IH using True "1.prems"
      by (auto simp: nth_list_update nat_eq_iff)
  qed
qed

lemma reverse_rev: "reverse s = rev s"
proof (rule nth_equalityI)
  show "length (reverse s) = length (rev s)" by (simp add: reverse_def reverseLoop_length)
next
  fix k assume "k < length (reverse s)"
  then have k: "k < length s" by (simp add: reverse_def reverseLoop_length)
  then have "reverse s ! k = s ! nat (int (length s) - 1 - int k)"
    unfolding reverse_def by (subst reverseLoop_nth) auto
  also have "nat (int (length s) - 1 - int k) = length s - Suc k" using k by linarith
  finally show "reverse s ! k = rev s ! k" using k by (simp add: rev_nth)
qed


lemma slice_snoc: "start \<le> i \<Longrightarrow> i < length b \<Longrightarrow> slice b start (Suc i) = slice b start i @ [b ! i]"
  by (simp add: slice_def Suc_diff_le take_Suc_conv_app_nth)

lemma splitLoop_linesFrom:
  "start \<le> i \<Longrightarrow> i \<le> length b \<Longrightarrow>
   (case splitLoop b i start lines of (st, ls) \<Rightarrow>
      (if st < length b then ls @ [drop st b @ [nl]] else ls))
   = lines @ linesFrom (slice b start i) (drop i b)"
proof (induction b i start lines rule: splitLoop.induct)
  case (1 b i start lines)
  show ?case
  proof (cases "i < length b")
    case False
    then have i: "i = length b" using "1.prems" by simp
    have "splitLoop b i start lines = (start, lines)"
      using False by (subst splitLoop.simps) simp
    then show ?thesis using i "1.prems" by (auto simp: slice_def)
  next
    case True
    then have d: "drop i b = b ! i # drop (i + 1) b" by (simp add: Cons_nth_drop_Suc)
    show ?thesis
    proof (cases "b ! i = nl")
      case nlc: True
      have eq: "splitLoop b i start lines = splitLoop b (i + 1) (i + 1) (lines @ [slice b start (i + 1)])"
        using True nlc by (subst splitLoop.simps) (simp add: Let_def)
      have "slice b (i + 1) (i + 1) = []" by (simp add: slice_def)
      then show ?thesis
        using "1.IH"(1)[OF True nlc refl] True nlc "1.prems" unfolding eq d
        by (simp add: slice_snoc)
    next
      case nnl: False
      have eq: "splitLoop b i start lines = splitLoop b (i + 1) start lines"
        using True nnl by (subst splitLoop.simps) simp
      show ?thesis
        using "1.IH"(2)[OF True nnl] True nnl "1.prems" unfolding eq d
        by (simp add: slice_snoc)
    qed
  qed
qed

lemma split_linesFrom: "splitLinesPreserveEndings b = linesFrom [] b"
proof (cases "splitLoop b 0 0 []")
  case (Pair st ls)
  then show ?thesis
    using splitLoop_linesFrom[of 0 0 b "[]"]
    by (auto simp: splitLinesPreserveEndings_def slice_def Let_def split: if_splits)
qed


lemma linesFrom_concat:
  "nl \<notin> set cur \<Longrightarrow>
   concat (linesFrom cur cs) =
     (if cur @ cs = [] \<or> last (cur @ cs) = nl then cur @ cs else cur @ cs @ [nl])"
proof (induction cs arbitrary: cur)
  case Nil
  then show ?case by (cases cur rule: rev_cases) auto
next
  case (Cons c cs)
  show ?case
  proof (cases "c = nl")
    case True
    then show ?thesis using Cons.IH[of "[]"] by (cases cs rule: rev_cases) auto
  next
    case False
    then show ?thesis using Cons.IH[of "cur @ [c]"] Cons.prems by simp
  qed
qed

lemma linesFrom_records:
  "nl \<notin> set cur \<Longrightarrow> r \<in> set (linesFrom cur cs) \<Longrightarrow> isRecord r"
proof (induction cs arbitrary: cur)
  case Nil
  then show ?case by (auto simp: isRecord_def split: if_splits)
next
  case (Cons c cs)
  show ?case
  proof (cases "c = nl")
    case True
    then show ?thesis using Cons.IH[of "[]"] Cons.prems by (auto simp: isRecord_def)
  next
    case False
    then show ?thesis using Cons.IH[of "cur @ [c]"] Cons.prems by simp
  qed
qed

lemma linesFrom_body:
  "nl \<notin> set body \<Longrightarrow>
   linesFrom cur (body @ nl # rest) = (cur @ body @ [nl]) # linesFrom [] rest"
  by (induction body arbitrary: cur) auto

lemma isRecord_split: "isRecord r \<Longrightarrow> \<exists>body. r = body @ [nl] \<and> nl \<notin> set body"
  by (cases r rule: rev_cases) (auto simp: isRecord_def)

lemma linesFrom_of_records:
  "\<forall>r\<in>set ls. isRecord r \<Longrightarrow> linesFrom [] (concat ls) = ls"
proof (induction ls)
  case Nil
  then show ?case by simp
next
  case (Cons r ls)
  then obtain body where r: "r = body @ [nl]" and b: "nl \<notin> set body"
    using isRecord_split by auto
  show ?case using Cons linesFrom_body[OF b, of "[]" "concat ls"] by (simp add: r)
qed

lemma linesFrom_empty_iff: "linesFrom cur cs = [] \<longleftrightarrow> cur = [] \<and> cs = []"
  by (induction cs arbitrary: cur) auto

lemma split_concat:
  "concat (splitLinesPreserveEndings b) = (if b = [] \<or> last b = nl then b else b @ [nl])"
  using linesFrom_concat[of "[]" b] by (simp add: split_linesFrom)

lemma split_records: "r \<in> set (splitLinesPreserveEndings b) \<Longrightarrow> isRecord r"
  using linesFrom_records[of "[]" r b] by (simp add: split_linesFrom)

lemma split_of_records:
  "\<forall>r\<in>set ls. isRecord r \<Longrightarrow> splitLinesPreserveEndings (concat ls) = ls"
  by (simp add: split_linesFrom linesFrom_of_records)

lemma split_empty_iff: "splitLinesPreserveEndings b = [] \<longleftrightarrow> b = []"
  by (simp add: split_linesFrom linesFrom_empty_iff)

lemma hasTrailingNewline_last: "hasTrailingNewline data \<longleftrightarrow> data \<noteq> [] \<and> last data = nl"
  by (cases data rule: rev_cases) (auto simp: hasTrailingNewline_def)

lemma marker_isRecord: "isRecord marker"
  by (simp add: isRecord_def marker_def nl_def)

lemma encodeBytes_concat:
  "encodeBytes b =
     concat ((if b \<noteq> [] \<and> last b \<noteq> nl then [marker] else []) @ rev (splitLinesPreserveEndings b))"
  by (auto simp: encodeBytes_def Let_def join_concat reverse_rev hasTrailingNewline_last)

lemma encode_records:
  "r \<in> set ((if b \<noteq> [] \<and> last b \<noteq> nl then [marker] else []) @ rev (splitLinesPreserveEndings b))
   \<Longrightarrow> isRecord r"
  using split_records marker_isRecord by (auto split: if_splits)

lemma split_encodeBytes:
  "splitLinesPreserveEndings (encodeBytes b) =
     (if b \<noteq> [] \<and> last b \<noteq> nl then [marker] else []) @ rev (splitLinesPreserveEndings b)"
  unfolding encodeBytes_concat
  by (rule split_of_records) (use encode_records in blast)

lemma stripLastNewline_records:
  assumes "ls \<noteq> []" "isRecord (last ls)"
  shows "concat (stripLastNewline True ls) = butlast (concat ls)"
proof -
  obtain xs x where ls: "ls = xs @ [x]" using assms(1) by (cases ls rule: rev_cases) auto
  then have x: "x \<noteq> []" "last x = nl" using assms(2) by (auto simp: isRecord_def)
  then have "x ! (length x - 1) = nl" by (simp add: last_conv_nth)
  then have "stripLastNewline True ls = xs @ [butlast x]"
    using x by (simp add: stripLastNewline_def ls Let_def butlast_conv_take)
  then show ?thesis using x by (simp add: ls butlast_append)
qed

lemma roundtrip_unless_marker_last:
  assumes "\<not> (b \<noteq> [] \<and> last b = nl \<and> last (splitLinesPreserveEndings b) = marker)"
  shows "decodeBytes (encodeBytes b) = b"
proof -
  let ?L = "splitLinesPreserveEndings b"
  consider (empty) "b = []" | (terminated) "b \<noteq> []" "last b = nl" | (unterminated) "b \<noteq> []" "last b \<noteq> nl"
    by blast
  then show ?thesis
  proof cases
    case empty
    then have "?L = []" by (simp add: split_empty_iff)
    then show ?thesis using empty
      by (simp add: decodeBytes_def split_encodeBytes stripMarker_def stripLastNewline_def
          reverse_rev join_concat)
  next
    case terminated
    then have L: "?L \<noteq> []" by (simp add: split_empty_iff)
    have nm: "last ?L \<noteq> marker" using assms terminated by simp
    have "splitLinesPreserveEndings (encodeBytes b) = rev ?L" using terminated by (simp add: split_encodeBytes)
    moreover have "rev ?L ! 0 = last ?L" using L by (simp add: hd_conv_nth[symmetric] hd_rev)
    ultimately have "decodeBytes (encodeBytes b) = concat ?L"
      using nm by (simp add: decodeBytes_def stripMarker_def stripLastNewline_def reverse_rev join_concat)
    then show ?thesis using terminated by (simp add: split_concat)
  next
    case unterminated
    then have L: "?L \<noteq> []" by (simp add: split_empty_iff)
    then have rec: "isRecord (last ?L)" using split_records[of "last ?L" b] by simp
    have "splitLinesPreserveEndings (encodeBytes b) = marker # rev ?L"
      using unterminated by (simp add: split_encodeBytes)
    then have "decodeBytes (encodeBytes b) = concat (stripLastNewline True ?L)"
      by (simp add: decodeBytes_def stripMarker_def reverse_rev join_concat)
    also have "\<dots> = butlast (concat ?L)" using L rec by (rule stripLastNewline_records)
    finally show ?thesis using unterminated by (simp add: split_concat butlast_append)
  qed
qed

subsection \<open>The transcoder\<close>

lemma reverse_nth:
  "k < length s \<Longrightarrow> reverse s ! k = s ! (length s - 1 - k)"
  by (simp add: reverse_rev rev_nth)

text \<open>
  Claim C4 (LineSplitter contract). The empty buffer gives no record. The records,
  concatenated, are the input itself when the input is empty or ends with a newline, and
  the input followed by one more newline otherwise. Every record is a run of bytes
  without newline followed by exactly one newline: so the records are the lines of the
  input, cut after each newline, a carriage return before the newline staying where it
  is, and only a last line without newline gets a newline that was not in the input.
\<close>

theorem splitter_contract:
  "splitLinesPreserveEndings [] = [] \<and>
   concat (splitLinesPreserveEndings b) = (if b = [] \<or> last b = nl then b else b @ [nl]) \<and>
   (\<forall>r\<in>set (splitLinesPreserveEndings b). isRecord r)"
  using split_concat[of b] split_records[of _ b] split_empty_iff[of "[]"] by simp

theorem splitter_contract_witness:
  "splitLinesPreserveEndings (''a'' @ [cr, nl] @ ''b'' @ [nl] @ ''c'') =
     [''a'' @ [cr, nl], ''b'' @ [nl], ''c'' @ [nl]] \<and>
   concat (splitLinesPreserveEndings (''a'' @ [cr, nl] @ ''b'' @ [nl] @ ''c'')) =
     (''a'' @ [cr, nl] @ ''b'' @ [nl] @ ''c'') @ [nl] \<and>
   isRecord (''a'' @ [cr, nl]) \<and> isRecord (''b'' @ [nl]) \<and> isRecord (''c'' @ [nl])"
  using splitter_contract[of "''a'' @ [cr, nl] @ ''b'' @ [nl] @ ''c''"]
  by (simp add: split_linesFrom nl_def cr_def)

text \<open>
  Claim C6 (reversal correctness). For a non-empty buffer that ends with a newline, the
  encoded output is the concatenation of the buffer's records in reverse order and nothing
  else, the records being a cut of the buffer itself. \<^verbatim>\<open>reverse\<close> puts at every index
  \<open>k\<close> the element that was at the mirrored index, so the middle element of a sequence
  of odd length stays where it is.
\<close>

theorem reversal_correct:
  assumes "b \<noteq> []" and "last b = nl"
  shows "encodeBytes b = concat (rev (splitLinesPreserveEndings b)) \<and>
         concat (splitLinesPreserveEndings b) = b \<and>
         (\<forall>k < length ls. reverse ls ! k = ls ! (length ls - 1 - k)) \<and>
         (odd (length ls) \<longrightarrow> reverse ls ! (length ls div 2) = ls ! (length ls div 2))"
proof -
  have e: "encodeBytes b = concat (rev (splitLinesPreserveEndings b))"
    using assms by (simp add: encodeBytes_concat)
  have c: "concat (splitLinesPreserveEndings b) = b" using assms by (simp add: split_concat)
  have s: "\<forall>k < length ls. reverse ls ! k = ls ! (length ls - 1 - k)" by (simp add: reverse_nth)
  have m: "reverse ls ! (length ls div 2) = ls ! (length ls div 2)" if o: "odd (length ls)"
  proof -
    have "length ls div 2 < length ls" using o by (cases ls) auto
    moreover have "length ls - 1 - length ls div 2 = length ls div 2" using o by (auto elim: oddE)
    ultimately show ?thesis by (simp add: reverse_nth)
  qed
  show ?thesis using e c s m by blast
qed

theorem reversal_correct_witness:
  "''1'' @ [nl] @ ''2'' @ [nl] @ ''3'' @ [nl] \<noteq> [] \<and>
   last (''1'' @ [nl] @ ''2'' @ [nl] @ ''3'' @ [nl]) = nl \<and>
   encodeBytes (''1'' @ [nl] @ ''2'' @ [nl] @ ''3'' @ [nl]) = ''3'' @ [nl] @ ''2'' @ [nl] @ ''1'' @ [nl]"
  using reversal_correct[of "''1'' @ [nl] @ ''2'' @ [nl] @ ''3'' @ [nl]"
      "splitLinesPreserveEndings (''1'' @ [nl] @ ''2'' @ [nl] @ ''3'' @ [nl])"]
  by (simp add: split_linesFrom nl_def)

text \<open>
  Claim C10 (every record ends with a newline). Every record of the splitter is non-empty
  and ends with a newline; the encoded output of a non-empty buffer is non-empty and ends
  with a newline; hence the marker condition of \<^verbatim>\<open>encode\<close> is false on every encoded
  output, and encoding an encoded buffer prepends no marker.
\<close>

theorem records_end_with_newline:
  "(\<forall>r\<in>set (splitLinesPreserveEndings b). r \<noteq> [] \<and> last r = nl) \<and>
   (b \<noteq> [] \<longrightarrow> encodeBytes b \<noteq> [] \<and> last (encodeBytes b) = nl) \<and>
   (hasTrailingNewline (encodeBytes b) \<or> length (encodeBytes b) = 0) \<and>
   encodeBytes (encodeBytes b) = join (reverse (splitLinesPreserveEndings (encodeBytes b)))"
proof -
  let ?L = "splitLinesPreserveEndings b"
  have rec: "\<forall>r\<in>set ?L. r \<noteq> [] \<and> last r = nl"
    using split_records[of _ b] by (auto simp: isRecord_def)
  have ne: "encodeBytes b \<noteq> [] \<and> last (encodeBytes b) = nl" if b: "b \<noteq> []"
  proof -
    have L: "?L \<noteq> []" using b by (simp add: split_empty_iff)
    then have h: "hd ?L \<in> set ?L" by simp
    then have hr: "hd ?L \<noteq> []" "last (hd ?L) = nl" using rec by auto
    have "rev ?L = butlast (rev ?L) @ [hd ?L]"
      using L by (metis append_butlast_last_id last_rev rev_is_Nil_conv)
    then have "encodeBytes b = concat (
        (if b \<noteq> [] \<and> last b \<noteq> nl then [marker] else []) @ butlast (rev ?L)) @ hd ?L"
      by (simp add: encodeBytes_concat)
    then show ?thesis using hr by simp
  qed
  have tr: "hasTrailingNewline (encodeBytes b) \<or> length (encodeBytes b) = 0"
  proof (cases "b = []")
    case True
    then show ?thesis by (simp add: encodeBytes_concat split_empty_iff[THEN iffD2])
  next
    case False
    then show ?thesis using ne by (simp add: hasTrailingNewline_last)
  qed
  have "encodeBytes (encodeBytes b) = join (reverse (splitLinesPreserveEndings (encodeBytes b)))"
    using tr by (auto simp: encodeBytes_def[of "encodeBytes b"] Let_def)
  then show ?thesis using rec ne tr by blast
qed

theorem records_end_with_newline_witness:
  "splitLinesPreserveEndings ''ab'' = [''ab'' @ [nl]] \<and>
   encodeBytes ''ab'' = marker @ ''ab'' @ [nl] \<and>
   encodeBytes (encodeBytes ''ab'') = ''ab'' @ [nl] @ marker"
  using records_end_with_newline[of "''ab''"]
  by (simp add: split_linesFrom encodeBytes_concat marker_def nl_def)

subsection \<open>Content that equals the marker line\<close>

text \<open>
  The marker is an ordinary line of bytes, and \<^verbatim>\<open>decode\<close> takes a first record equal to
  it for the marker whoever wrote it. The round trip therefore holds for every buffer but
  those that end with a newline and whose last line is the marker line, on which the
  decoded buffer is shorter than the original (\<open>roundtrip_iff\<close>); and the encoded output
  begins with the marker record exactly when the buffer is non-empty and either does not
  end with a newline or has the marker line for its last line (\<open>marker_prefix_iff\<close>).
\<close>

lemma stripLastNewline_length:
  "length (concat (stripLastNewline h ls)) \<le> length (concat ls)"
proof (cases ls rule: rev_cases)
  case Nil
  then show ?thesis by (simp add: stripLastNewline_def)
next
  case (snoc xs x)
  then show ?thesis by (simp add: stripLastNewline_def Let_def)
qed

lemma roundtrip_fails_if_marker_last:
  assumes "b \<noteq> []" and "last b = nl" and "last (splitLinesPreserveEndings b) = marker"
  shows "length (decodeBytes (encodeBytes b)) < length b"
proof -
  let ?L = "splitLinesPreserveEndings b"
  have L: "?L \<noteq> []" using assms(1) by (simp add: split_empty_iff)
  then have Lm: "?L = butlast ?L @ [marker]" using assms(3) by (metis append_butlast_last_id)
  have "splitLinesPreserveEndings (encodeBytes b) = rev ?L"
    using assms by (simp add: split_encodeBytes)
  also have "\<dots> = marker # rev (butlast ?L)" by (subst Lm) simp
  finally have "decodeBytes (encodeBytes b) = concat (stripLastNewline True (butlast ?L))"
    by (simp add: decodeBytes_def stripMarker_def reverse_rev join_concat)
  then have "length (decodeBytes (encodeBytes b)) \<le> length (concat (butlast ?L))"
    by (simp add: stripLastNewline_length)
  moreover have "concat ?L = b" using assms by (simp add: split_concat)
  then have "length b = length (concat (butlast ?L)) + length marker"
    by (subst (asm) Lm) (metis concat_append concat.simps append_Nil2 length_append)
  moreover have "length marker = 13" by (simp add: marker_def)
  ultimately show ?thesis by simp
qed

lemma roundtrip_iff:
  "decodeBytes (encodeBytes b) = b \<longleftrightarrow>
   \<not> (b \<noteq> [] \<and> last b = nl \<and> last (splitLinesPreserveEndings b) = marker)"
  using roundtrip_unless_marker_last[of b] roundtrip_fails_if_marker_last[of b] by fastforce

lemma takeWhile_body:
  "nl \<notin> set body \<Longrightarrow> takeWhile (\<lambda>c. c \<noteq> nl) (body @ nl # xs) = body"
  by (induction body) auto

lemma record_prefix_unique:
  assumes "isRecord r" and "isRecord m" and "HasPrefix (r @ rest) m"
  shows "r = m"
proof -
  obtain rb where r: "r = rb @ [nl]" "nl \<notin> set rb" using assms(1) isRecord_split by blast
  obtain mb where m: "m = mb @ [nl]" "nl \<notin> set mb" using assms(2) isRecord_split by blast
  from assms(3) obtain tl where e: "r @ rest = m @ tl"
    by (metis HasPrefix_def append_take_drop_id)
  have "takeWhile (\<lambda>c. c \<noteq> nl) (r @ rest) = rb" using r by (simp add: takeWhile_body)
  moreover have "takeWhile (\<lambda>c. c \<noteq> nl) (m @ tl) = mb" using m by (simp add: takeWhile_body)
  ultimately show ?thesis using e r m by simp
qed

lemma marker_prefix_iff:
  "HasPrefix (encodeBytes b) marker \<longleftrightarrow>
   b \<noteq> [] \<and> (last b \<noteq> nl \<or> last (splitLinesPreserveEndings b) = marker)"
proof (cases "b = []")
  case True
  then show ?thesis
    by (simp add: encodeBytes_concat split_empty_iff[THEN iffD2] HasPrefix_def marker_def)
next
  case False
  let ?L = "splitLinesPreserveEndings b"
  have L: "?L \<noteq> []" using False by (simp add: split_empty_iff)
  show ?thesis
  proof (cases "last b = nl")
    case unterminated: False
    then show ?thesis using False by (simp add: encodeBytes_concat HasPrefix_def)
  next
    case True
    have rec: "isRecord (last ?L)" using L split_records[of "last ?L" b] by simp
    obtain xs where xs: "?L = xs @ [last ?L]" using L by (metis append_butlast_last_id)
    have "concat (rev ?L) = last ?L @ concat (rev xs)" by (subst xs) simp
    then have e: "encodeBytes b = last ?L @ concat (rev xs)"
      using True False by (simp add: encodeBytes_concat)
    show ?thesis
    proof
      assume "HasPrefix (encodeBytes b) marker"
      then have "last ?L = marker"
        using record_prefix_unique[OF rec marker_isRecord] e by simp
      then show "b \<noteq> [] \<and> (last b \<noteq> nl \<or> last ?L = marker)" using False by simp
    next
      assume "b \<noteq> [] \<and> (last b \<noteq> nl \<or> last ?L = marker)"
      then have "last ?L = marker" using True by simp
      then show "HasPrefix (encodeBytes b) marker" using e by (simp add: HasPrefix_def)
    qed
  qed
qed

text \<open>The three theorems below evaluate the code on such buffers.\<close>

text \<open>
  Claim C1 (round-trip law), at the buffer that consists of the marker line: it ends with
  a newline, so it is encoded without a marker, to itself; decoding takes its only line
  for the marker and returns the empty buffer, not the buffer encoded.
\<close>

theorem roundtrip_fails_marker_last:
  "encodeBytes (''##BCKL.NNL##'' @ [nl]) = ''##BCKL.NNL##'' @ [nl] \<and>
   decodeBytes (encodeBytes (''##BCKL.NNL##'' @ [nl])) = []"
  by (simp add: encodeBytes_concat decodeBytes_def split_linesFrom stripMarker_def
      stripLastNewline_def marker_def nl_def reverse_rev join_concat)

text \<open>
  Claim C2 (marker correctness), at a buffer of two lines whose last line is the marker
  line: the buffer ends with a newline, and its encoded output begins with the marker
  record all the same, the reversal having moved the last line to the front.
\<close>

theorem marker_prefix_without_marker_need:
  "hasTrailingNewline (''x'' @ [nl] @ ''##BCKL.NNL##'' @ [nl]) \<and>
   encodeBytes (''x'' @ [nl] @ ''##BCKL.NNL##'' @ [nl]) = marker @ ''x'' @ [nl]"
  by (simp add: encodeBytes_concat split_linesFrom hasTrailingNewline_last marker_def nl_def)

text \<open>
  Claim C3 (double transform), at a buffer whose first line is the marker line: encoded
  twice it is itself again, the first decoding takes its first line for the marker, and
  the two decodings return the second line only.
\<close>

theorem double_roundtrip_fails_marker_first:
  "encodeBytes (encodeBytes (''##BCKL.NNL##'' @ [nl] @ ''x'' @ [nl])) = ''##BCKL.NNL##'' @ [nl] @ ''x'' @ [nl] \<and>
  decodeBytes (decodeBytes (encodeBytes (encodeBytes (''##BCKL.NNL##'' @ [nl] @ ''x'' @ [nl])))) = ''x'' @ [nl]"
  by (simp add: encodeBytes_concat decodeBytes_def split_linesFrom stripMarker_def
      stripLastNewline_def marker_def nl_def reverse_rev join_concat)

subsection \<open>Paths and names\<close>

lemma lastIndexFrom_le: "lastIndexFrom s sub i \<le> int i"
  by (induction i) auto

lemma LastIndex_at_end:
  "(LastIndex s sub \<ge> 0 \<and> LastIndex s sub = int (length s) - int (length sub)) \<longleftrightarrow> HasSuffix s sub"
proof (cases "length sub > length s")
  case True
  then show ?thesis by (simp add: LastIndex_def HasSuffix_def)
next
  case False
  let ?n = "length s - length sub"
  have len: "length (drop ?n s) = length sub" using False by simp
  have t: "take (length sub) (drop ?n s) = drop ?n s" using len by simp
  have d0: "?n = 0 \<Longrightarrow> drop ?n s = s" by simp
  show ?thesis
  proof (cases ?n)
    case 0
    then show ?thesis using False t d0 by (auto simp: LastIndex_def HasSuffix_def)
  next
    case (Suc i)
    have "lastIndexFrom s sub i \<le> int i" by (rule lastIndexFrom_le)
    then show ?thesis using False t Suc
      by (auto simp: LastIndex_def HasSuffix_def)
  qed
qed

lemma length_ToLower: "isASCII s \<Longrightarrow> length (ToLower mapLower s) = length s"
  by (simp add: ToLower_def)

lemma isASCII_Base: "isASCII path \<Longrightarrow> isASCII (Base path)"
proof -
  assume a: "isASCII path"
  have sub: "isASCII (take n xs)" "isASCII (drop n xs)" if "isASCII xs" for n xs
    using that by (auto simp: isASCII_def list_all_iff dest: in_set_takeD in_set_dropD)
  have c: "isASCII ''.''" "isASCII [Separator]" by (simp_all add: isASCII_def Separator_def)
  show ?thesis using a c sub by (simp add: Base_def Let_def)
qed

lemma stripLastBck_decompose:
  assumes "isASCII path"
  shows "stripLastBck mapLower path =
     (if Dir path = ''.'' then stripBase mapLower (Base path)
      else Join (Dir path) (stripBase mapLower (Base path)))"
proof -
  let ?b = "Base path"
  let ?l = "ToLower mapLower ?b"
  have len: "length ?l = length ?b" using assms by (simp add: isASCII_Base length_ToLower)
  have "(LastIndex ?l ''.bck'' \<ge> 0 \<and> LastIndex ?l ''.bck'' = int (length ?b) - 4)
        \<longleftrightarrow> HasSuffix ?l ''.bck''"
    using LastIndex_at_end[of ?l "''.bck''"] by (simp add: len)
  moreover have "HasSuffix ?l ''.bck'' \<Longrightarrow> LastIndex ?l ''.bck'' = int (length ?b) - 4"
    using calculation by blast
  moreover have "HasSuffix ?l ''.bck'' \<Longrightarrow> 4 \<le> length ?b"
    using len by (simp add: HasSuffix_def)
  ultimately show ?thesis
    by (auto simp: stripLastBck_def Let_def stripBase_def nat_diff_distrib')
qed

lemma lastSepLoop_none: "Separator \<notin> set path \<Longrightarrow> k \<le> length path \<Longrightarrow> lastSepLoop path k = 0"
  by (induction k) (auto simp: in_set_conv_nth)

lemma trailingSepLoop_none:
  "Separator \<notin> set path \<Longrightarrow> trailingSepLoop path (length path) = length path"
  by (cases path rule: rev_cases) (auto simp: nth_append)

lemma Dir_bare: "Separator \<notin> set path \<Longrightarrow> Dir path = ''.''"
  by (simp add: Dir_def lastSepLoop_none Clean_def)

lemma Base_bare: "Separator \<notin> set path \<Longrightarrow> path \<noteq> [] \<Longrightarrow> Base path = path"
  by (simp add: Base_def trailingSepLoop_none lastSepLoop_none Let_def)

lemma stripLastBck_bare:
  "isASCII path \<Longrightarrow> Separator \<notin> set path \<Longrightarrow> path \<noteq> [] \<Longrightarrow>
   stripLastBck mapLower path = stripBase mapLower path"
  by (simp add: stripLastBck_decompose Dir_bare Base_bare)

lemma encode_trace:
  "fsRead w inPath = Inr data \<Longrightarrow>
   ioTrace (snd (encode w inPath)) =
     ioTrace w @ [ReadFile inPath, WriteFile (inPath @ ''.bck'') (encodeBytes data)]"
  by (auto simp: encode_def osReadFile_def osWriteFile_def logEvent_def printOut_def Let_def
      split: option.splits)

lemma runOutPath_free:
  "\<not> fileExists w (stripLastBck (unicodeLower w) inPath) \<Longrightarrow>
   runOutPath w inPath = Some (stripLastBck (unicodeLower w) inPath)"
  by (simp add: runOutPath_def Let_def)

lemma decodeOutPath_free:
  "\<not> fileExists w (stripLastBck (unicodeLower w) inPath) \<Longrightarrow>
   decodeOutPath w inPath = (Some (Inr (stripLastBck (unicodeLower w) inPath)), w)"
  by (simp add: decodeOutPath_def Let_def)

text \<open>
  Claim C8 (naming convention), as amended. \<^verbatim>\<open>encode\<close> reads the input path and writes
  to the input path with \<^verbatim>\<open>.bck\<close> appended, whatever the path, so encoding can be
  repeated. \<^verbatim>\<open>decode\<close> and \<^verbatim>\<open>run\<close> take \<^verbatim>\<open>stripLastBck\<close> of the input path for their
  output path when no file of that name exists. For a path of ASCII bytes,
  \<^verbatim>\<open>stripLastBck\<close> takes the final segment \<^verbatim>\<open>filepath.Base(path)\<close>, removes its last four
  bytes when it ends in \<^verbatim>\<open>.bck\<close> in any case of letters and leaves it as it is otherwise,
  and returns the segment alone when \<^verbatim>\<open>filepath.Dir(path)\<close> is \<^verbatim>\<open>.\<close> and
  \<^verbatim>\<open>filepath.Join\<close> of the directory and the segment otherwise. A non-empty path without
  separator is therefore returned with exactly one suffix removed, or unchanged when it
  does not end in the suffix. Paths with a byte outside ASCII are left out: there
  \<^verbatim>\<open>ToLower\<close> may change the length of the name.
\<close>

theorem naming_convention:
  "(fsRead w inPath = Inr data \<longrightarrow>
      ioTrace (snd (encode w inPath)) =
        ioTrace w @ [ReadFile inPath, WriteFile (inPath @ ''.bck'') (encodeBytes data)]) \<and>
   (\<not> fileExists w (stripLastBck (unicodeLower w) inPath) \<longrightarrow>
      runOutPath w inPath = Some (stripLastBck (unicodeLower w) inPath) \<and>
      decodeOutPath w inPath = (Some (Inr (stripLastBck (unicodeLower w) inPath)), w)) \<and>
   (isASCII path \<longrightarrow>
      stripLastBck mapLower path =
        (if Dir path = ''.'' then stripBase mapLower (Base path)
         else Join (Dir path) (stripBase mapLower (Base path)))) \<and>
   (isASCII path \<and> Separator \<notin> set path \<and> path \<noteq> [] \<longrightarrow>
      stripLastBck mapLower path =
        (if HasSuffix (ToLower mapLower path) ''.bck'' then take (length path - 4) path
         else path))"
  using encode_trace[of w inPath data] runOutPath_free[of w inPath] decodeOutPath_free[of w inPath]
    stripLastBck_decompose[of path mapLower] stripLastBck_bare[of path mapLower]
  by (simp add: stripBase_def)

theorem naming_convention_witness:
  "ioTrace (snd (encode sampleWorld ''file.bck'')) =
     [ReadFile ''file.bck'', WriteFile ''file.bck.bck'' (''a'' @ [nl] @ ''b'' @ [nl])] \<and>
   runOutPath sampleWorld ''file.bck'' = Some ''file'' \<and>
   decodeOutPath sampleWorld ''file.bck'' = (Some (Inr ''file''), sampleWorld) \<and>
   stripLastBck (unicodeLower sampleWorld) ''file.bck.BCK'' = ''file.bck'' \<and>
   stripLastBck (unicodeLower sampleWorld) ''notes.txt'' = ''notes.txt''"
proof -
  let ?U = "unicodeLower sampleWorld"
  have r: "fsRead sampleWorld ''file.bck'' = Inr (''b'' @ [nl] @ ''a'' @ [nl])"
    by (simp add: sampleWorld_def withFile_def)
  have e: "encodeBytes (''b'' @ [nl] @ ''a'' @ [nl]) = ''a'' @ [nl] @ ''b'' @ [nl]"
    by (simp add: encodeBytes_concat split_linesFrom nl_def)
  have t: "ioTrace sampleWorld = []"
    by (simp add: sampleWorld_def withFile_def world0_def)
  have s: "stripLastBck ?U ''file.bck'' = ''file''"
    by (simp add: stripLastBck_bare Separator_def stripBase_def HasSuffix_def ToLower_def
        isASCII_def lowerByte_def isUpperASCII_def)
  have f: "\<not> fileExists sampleWorld ''file''"
    by (simp add: sampleWorld_def withFile_def world0_def fileExists_def)
  have a: "isASCII ''file.bck.BCK''" "Separator \<notin> set ''file.bck.BCK''"
    "HasSuffix (ToLower ?U ''file.bck.BCK'') ''.bck''"
    "isASCII ''notes.txt''" "Separator \<notin> set ''notes.txt''"
    "\<not> HasSuffix (ToLower ?U ''notes.txt'') ''.bck''"
    by (simp_all add: isASCII_def Separator_def HasSuffix_def ToLower_def lowerByte_def
        isUpperASCII_def char_of_def bit_0)
  note n1 = naming_convention[where w = sampleWorld and inPath = "''file.bck''"
      and data = "''b'' @ [nl] @ ''a'' @ [nl]" and path = "''file.bck.BCK''" and mapLower = ?U]
  note n2 = naming_convention[where w = sampleWorld and inPath = "''file.bck''"
      and data = "''b'' @ [nl] @ ''a'' @ [nl]" and path = "''notes.txt''" and mapLower = ?U]
  have c1: "ioTrace (snd (encode sampleWorld ''file.bck'')) =
     [ReadFile ''file.bck'', WriteFile ''file.bck.bck'' (''a'' @ [nl] @ ''b'' @ [nl])]"
    using n1[THEN conjunct1] r e t by simp
  have c2: "runOutPath sampleWorld ''file.bck'' = Some ''file'' \<and>
     decodeOutPath sampleWorld ''file.bck'' = (Some (Inr ''file''), sampleWorld)"
    using n1[THEN conjunct2, THEN conjunct1] s f by simp
  have c3: "stripLastBck ?U ''file.bck.BCK'' = ''file.bck''"
    using n1[THEN conjunct2, THEN conjunct2, THEN conjunct2] a(1,2,3) by simp
  have c4: "stripLastBck ?U ''notes.txt'' = ''notes.txt''"
    using n2[THEN conjunct2, THEN conjunct2, THEN conjunct2] a(4,5,6) by simp
  show ?thesis using c1 c2 c3 c4 by simp
qed

text \<open>
  Claim C8 as stated fails on a path with a directory part that is not in cleaned form:
  the final segment of \<^verbatim>\<open>./file.txt\<close> does not end in the suffix, and the path is
  returned as \<^verbatim>\<open>file.txt\<close>, not unchanged.
\<close>

theorem strip_cleans_path:
  "\<not> HasSuffix (ToLower (unicodeLower world0) (Base ''./file.txt'')) ''.bck'' \<and>
   stripLastBck (unicodeLower world0) ''./file.txt'' = ''file.txt''"
  by (simp add: stripLastBck_decompose Dir_def Base_def Clean_def Separator_def stripBase_def
        HasSuffix_def ToLower_def isASCII_def Let_def lowerByte_def isUpperASCII_def)

lemma nextLoop_least:
  "i \<le> n \<Longrightarrow> n \<le> maxInt64 \<Longrightarrow> \<not> fileExists w (candidateName dir name ext n) \<Longrightarrow>
   \<exists>N. i \<le> N \<and> N \<le> n \<and> \<not> fileExists w (candidateName dir name ext N) \<and>
       (\<forall>k. i \<le> k \<and> k < N \<longrightarrow> fileExists w (candidateName dir name ext k)) \<and>
       nextLoop w dir name ext i = Some (candidateName dir name ext N)"
proof (induction "nat (n - i)" arbitrary: i)
  case 0
  then have "i = n" by simp
  then show ?case using "0.prems" by (subst nextLoop.simps) auto
next
  case (Suc d)
  show ?case
  proof (cases "fileExists w (candidateName dir name ext i)")
    case False
    then have "nextLoop w dir name ext i = Some (candidateName dir name ext i)"
      by (subst nextLoop.simps) simp
    then show ?thesis using False Suc.prems by (intro exI[of _ i]) auto
  next
    case True
    have lt: "i < n" using Suc.hyps(2) by linarith
    then have inc: "incrInt i = i + 1" using Suc.prems by (simp add: incrInt_def)
    have step: "nextLoop w dir name ext i = nextLoop w dir name ext (i + 1)"
      using True inc by (subst nextLoop.simps) simp
    have "d = nat (n - (i + 1))" using Suc.hyps(2) by linarith
    from Suc.hyps(1)[OF this] lt Suc.prems
    obtain N where N: "i + 1 \<le> N" "N \<le> n" "\<not> fileExists w (candidateName dir name ext N)"
      "\<forall>k. i + 1 \<le> k \<and> k < N \<longrightarrow> fileExists w (candidateName dir name ext k)"
      "nextLoop w dir name ext (i + 1) = Some (candidateName dir name ext N)"
      by force
    have "\<forall>k. i \<le> k \<and> k < N \<longrightarrow> fileExists w (candidateName dir name ext k)"
    proof (intro allI impI)
      fix k assume k: "i \<le> k \<and> k < N"
      show "fileExists w (candidateName dir name ext k)"
      proof (cases "k = i")
        case True
        then show ?thesis using \<open>fileExists w (candidateName dir name ext i)\<close> by simp
      next
        case False
        then show ?thesis using k N(4) by simp
      qed
    qed
    then show ?thesis using N step by (intro exI[of _ N]) auto
  qed
qed

lemma promptOverwrite_stat: "promptOverwrite w t = (r, w1) \<Longrightarrow> fsStat w1 = fsStat w"
  by (auto simp: promptOverwrite_def printOut_def logEvent_def Let_def split: option.splits)

text \<open>
  Claim C7 (collision-safe naming). Let the computed output path \<open>out\<close> exist, and let
  some alternate name \<open>numbered out n\<close> with \<open>1 \<le> n\<close>, \<open>n\<close> a Go \<^verbatim>\<open>int\<close>, not exist.
  Then \<^verbatim>\<open>nextAvailableName\<close> returns, and it returns \<open>numbered out N\<close> for the smallest
  \<open>N \<ge> 1\<close> whose name does not exist; \<^verbatim>\<open>run\<close> takes this name for its output path, and
  so does \<^verbatim>\<open>decode\<close> when the answer to its prompt is not a yes.
\<close>

theorem collision_safe_naming:
  assumes "out = stripLastBck (unicodeLower w) inPath"
      and "fileExists w out"
      and "1 \<le> n" and "n \<le> maxInt64" and "\<not> fileExists w (numbered out n)"
  shows "\<exists>N. 1 \<le> N \<and> \<not> fileExists w (numbered out N) \<and>
           (\<forall>k. 1 \<le> k \<and> k < N \<longrightarrow> fileExists w (numbered out k)) \<and>
           nextAvailableName w out = Some (numbered out N) \<and>
           runOutPath w inPath = Some (numbered out N) \<and>
           (\<forall>w1. promptOverwrite w out = (Inr False, w1) \<longrightarrow>
                 fst (decodeOutPath w inPath) = Some (Inr (numbered out N)))"
proof -
  let ?dir = "Dir out" and ?ext = "Ext (Base out)"
  let ?name = "TrimSuffix (Base out) ?ext"
  have free: "\<not> fileExists w (candidateName ?dir ?name ?ext n)"
    using assms(5) by (simp add: numbered_def)
  from nextLoop_least[OF assms(3) assms(4) free]
  obtain N where N: "1 \<le> N" "N \<le> n" "\<not> fileExists w (candidateName ?dir ?name ?ext N)"
    "\<forall>k. 1 \<le> k \<and> k < N \<longrightarrow> fileExists w (candidateName ?dir ?name ?ext k)"
    "nextLoop w ?dir ?name ?ext 1 = Some (candidateName ?dir ?name ?ext N)"
    by blast
  have nan: "nextAvailableName w out = Some (numbered out N)"
    using N(5) by (simp add: nextAvailableName_def numbered_def Let_def)
  have rn: "runOutPath w inPath = Some (numbered out N)"
    using nan assms(1,2) by (simp add: runOutPath_def Let_def)
  have dc: "fst (decodeOutPath w inPath) = Some (Inr (numbered out N))"
    if p: "promptOverwrite w out = (Inr False, w1)" for w1
  proof -
    have st: "fileExists w1 = fileExists w"
      using promptOverwrite_stat[OF p] by (simp add: fileExists_def fun_eq_iff)
    have "N \<le> maxInt64" using N(2) assms(4) by simp
    moreover have "\<not> fileExists w1 (candidateName ?dir ?name ?ext N)" using N(3) st by simp
    ultimately obtain M where M: "1 \<le> M" "M \<le> N"
      "\<not> fileExists w1 (candidateName ?dir ?name ?ext M)"
      "nextLoop w1 ?dir ?name ?ext 1 = Some (candidateName ?dir ?name ?ext M)"
      using nextLoop_least[OF N(1), of w1 ?dir ?name ?ext] by blast
    have "M = N"
    proof (rule ccontr)
      assume "M \<noteq> N"
      then have "M < N" using M(2) by simp
      then show False using N(4) M(1,3) st by simp
    qed
    then have "nextAvailableName w1 out = Some (numbered out N)"
      using M(4) by (simp add: nextAvailableName_def numbered_def Let_def)
    then show ?thesis using p assms(1,2) by (simp add: decodeOutPath_def Let_def)
  qed
  show ?thesis
    using N(1,3,4) nan rn dc by (intro exI[of _ N]) (simp add: numbered_def)
qed

theorem collision_safe_naming_witness:
  "stripLastBck (unicodeLower collisionWorld) ''out.txt.bck'' = ''out.txt'' \<and>
   fileExists collisionWorld ''out.txt'' \<and> fileExists collisionWorld ''out_1.txt'' \<and>
   \<not> fileExists collisionWorld ''out_2.txt'' \<and>
   numbered ''out.txt'' 1 = ''out_1.txt'' \<and> numbered ''out.txt'' 2 = ''out_2.txt'' \<and>
   nextAvailableName collisionWorld ''out.txt'' = Some ''out_2.txt'' \<and>
   runOutPath collisionWorld ''out.txt.bck'' = Some ''out_2.txt'' \<and>
   fst (decodeOutPath collisionWorld ''out.txt.bck'') = Some (Inr ''out_2.txt'')"
proof -
  have s: "stripLastBck (unicodeLower collisionWorld) ''out.txt.bck'' = ''out.txt''"
    by (simp add: stripLastBck_bare Separator_def stripBase_def HasSuffix_def ToLower_def isASCII_def
        lowerByte_def isUpperASCII_def)
  have n1: "numbered ''out.txt'' 1 = ''out_1.txt''"
    by (simp add: numbered_def candidateName_def Dir_def Base_def Ext_def Clean_def Join_def
        TrimSuffix_def HasSuffix_def Separator_def fmtInt_def natDigits.simps Let_def
        char_of_def bit_0)
  have n2: "numbered ''out.txt'' 2 = ''out_2.txt''"
    by (simp add: numbered_def candidateName_def Dir_def Base_def Ext_def Clean_def Join_def
        TrimSuffix_def HasSuffix_def Separator_def fmtInt_def natDigits.simps Let_def
        char_of_def bit_0)
  have e: "fileExists collisionWorld ''out.txt''" "fileExists collisionWorld ''out_1.txt''"
    "\<not> fileExists collisionWorld ''out_2.txt''"
    by (simp_all add: collisionWorld_def withFile_def world0_def fileExists_def)
  have p: "fst (promptOverwrite collisionWorld ''out.txt'') = Inr False"
    by (simp add: promptOverwrite_def collisionWorld_def withFile_def world0_def readLine_def
        TrimSpace_def ToLower_def isASCII_def lowerByte_def isUpperASCII_def spaceRunes_def HasPrefix_def
        HasSuffix_def printOut_def logEvent_def nl_def Let_def)
  from collision_safe_naming[OF s[symmetric] e(1), of 2] e(3) n2
  obtain N where N: "1 \<le> N" "\<not> fileExists collisionWorld (numbered ''out.txt'' N)"
    "\<forall>k. 1 \<le> k \<and> k < N \<longrightarrow> fileExists collisionWorld (numbered ''out.txt'' k)"
    "nextAvailableName collisionWorld ''out.txt'' = Some (numbered ''out.txt'' N)"
    "runOutPath collisionWorld ''out.txt.bck'' = Some (numbered ''out.txt'' N)"
    "\<forall>w1. promptOverwrite collisionWorld ''out.txt'' = (Inr False, w1) \<longrightarrow>
        fst (decodeOutPath collisionWorld ''out.txt.bck'') = Some (Inr (numbered ''out.txt'' N))"
    by (auto simp: maxInt64_def)
  have "N \<noteq> 1" using N(2) n1 e(2) by auto
  moreover have "\<not> 2 < N" using N(3)[rule_format, of 2] n2 e(3) by auto
  ultimately have "N = 2" using N(1) by simp
  moreover have "fst (decodeOutPath collisionWorld ''out.txt.bck'') = Some (Inr (numbered ''out.txt'' N))"
    using N(6) p by (metis prod.collapse)
  ultimately show ?thesis using s n1 n2 e N(4,5) by simp
qed

subsection \<open>The suffix check of decode and run\<close>

lemma decode_reads_first:
  "decode w inPath = Some (e, w') \<Longrightarrow> \<exists>evs. ioTrace w' = ioTrace w @ ReadFile inPath # evs"
  by (auto simp: decode_def osReadFile_def osWriteFile_def decodeOutPath_def promptOverwrite_def
      logEvent_def printOut_def Let_def
      split: sum.splits option.splits prod.splits if_splits)

lemma detectIn_trace: "ioTrace (snd (detectIn ls w p)) = ioTrace w @ [Open p]"
  by (auto simp: detectIn_def logEvent_def Let_def split: sum.splits option.splits)


lemma printOut_trace: "ioTrace (printOut s w) = ioTrace w"
  by (simp add: printOut_def)

lemma osWriteFile_trace: "osWriteFile w p d = (r, w') \<Longrightarrow> ioTrace w' = ioTrace w @ [WriteFile p d]"
  by (auto simp: osWriteFile_def logEvent_def split: option.splits)

lemma executeFile_trace:
  "executeFile w l p = (r, w') \<Longrightarrow> ioTrace w' = ioTrace w @ [Exec (Command l) (Args l @ [p])]"
  by (auto simp: executeFile_def logEvent_def Let_def split: option.splits)

lemma detectLanguage_trace: "detectLanguage w p = (r, w') \<Longrightarrow> ioTrace w' = ioTrace w @ [Open p]"
  using detectIn_trace[of getSupportedLanguages w p] by (simp add: detectLanguage_def)

lemma run_reads_first:
  assumes "HasSuffix (ToLower (unicodeLower w) inPath) ''.bck''" and "run w inPath = Some (e, w')"
  shows "\<exists>evs. ioTrace w' = ioTrace w @ ReadFile inPath # evs"
proof (cases "fsRead w inPath")
  case (Inl err)
  then show ?thesis using assms by (auto simp: run_def osReadFile_def logEvent_def)
next
  case (Inr data)
  let ?w1 = "logEvent (ReadFile inPath) w"
  have t1: "ioTrace ?w1 = ioTrace w @ [ReadFile inPath]" by (simp add: logEvent_def)
  from assms Inr obtain outPath where o: "runOutPath ?w1 inPath = Some outPath"
    by (auto simp: run_def osReadFile_def split: option.splits)
  obtain r2 w2 where wr: "osWriteFile ?w1 outPath (decodeBytes data) = (r2, w2)"
    by (cases "osWriteFile ?w1 outPath (decodeBytes data)") auto
  have t2: "ioTrace w2 = ioTrace w @ [ReadFile inPath, WriteFile outPath (decodeBytes data)]"
    using osWriteFile_trace[OF wr] t1 by simp
  show ?thesis
  proof (cases r2)
    case (Some err)
    then show ?thesis using assms Inr o wr t2 by (auto simp: run_def osReadFile_def)
  next
    case None
    let ?w3 = "printOut (''Decoded '' @ quoted (Base inPath) @ '' '' @ arrow @
                                   '' '' @ quoted (Base outPath) @ [nl]) w2"
    obtain r4 w4 where d: "detectLanguage ?w3 outPath = (r4, w4)"
      by (cases "detectLanguage ?w3 outPath") auto
    have t4: "ioTrace w4 = ioTrace w2 @ [Open outPath]"
      using detectLanguage_trace[OF d] by (simp add: printOut_trace)
    show ?thesis
    proof (cases r4)
      case (Inl err)
      then show ?thesis using assms Inr o wr None d t2 t4
        by (auto simp: run_def osReadFile_def Let_def)
    next
      case (Inr lang)
      let ?w5 = "printOut (''Detected '' @ Name lang @ '', running with '' @
                                    Command lang @ ''...'' @ [nl]) w4"
      have "executeFile ?w5 lang outPath = (e, w')"
        using assms \<open>fsRead w inPath = Inr data\<close> o wr None d Inr
        by (auto simp: run_def osReadFile_def Let_def)
      from executeFile_trace[OF this] show ?thesis using t2 t4 by (simp add: printOut_trace)
    qed
  qed
qed

lemma printErrText_keeps:
  "ioTrace (printErrText s w) = ioTrace w" "fsRead (printErrText s w) = fsRead w"
  "fsStat (printErrText s w) = fsStat w" "stdoutData (printErrText s w) = stdoutData w"
  by (simp_all add: printErrText_def)

text \<open>
  Claim C9 (invalid-format rejection). For every input path that does not end in
  \<^verbatim>\<open>.bck\<close> after \<^verbatim>\<open>strings.ToLower\<close>, which is the check of the code: \<^verbatim>\<open>run\<close> returns
  the invalid-format error in an unchanged world and the process exits with status 1;
  the \<^verbatim>\<open>decode\<close> command prints its invalid-format message and exits with status 2; in
  both cases the exit status is not 0, no input or output operation has been logged, and
  the file system is as before. For a path that ends in the suffix, \<^verbatim>\<open>main\<close> goes on to
  \<^verbatim>\<open>decode\<close> or \<^verbatim>\<open>run\<close>, whose first operation is to read the input file. On a path of
  ASCII bytes the check is that the last four bytes are \<^verbatim>\<open>.bck\<close> once the letters
  \<^verbatim>\<open>A\<close> to \<^verbatim>\<open>Z\<close> are lowered; on other paths it is the same check after the case mapping of
  package \<^verbatim>\<open>unicode\<close>, whatever that mapping is.
\<close>

theorem invalid_format_rejection:
  "(\<not> HasSuffix (ToLower (unicodeLower w) inPath) ''.bck'' \<longrightarrow>
      run w inPath = Some (Some InvalidFormat, w) \<and>
      main w [prog, ''run'', inPath] = Some (1, printErr InvalidFormat w) \<and>
      main w [prog, ''decode'', inPath] =
        Some (2, printErrText (''Error: decode command only accepts .bck files'' @ [nl]) w) \<and>
      (\<forall>cmd code w'. (cmd = ''decode'' \<or> cmd = ''run'') \<and>
          main w [prog, cmd, inPath] = Some (code, w') \<longrightarrow>
          code \<noteq> 0 \<and> ioTrace w' = ioTrace w \<and> fsRead w' = fsRead w \<and> fsStat w' = fsStat w)) \<and>
   (HasSuffix (ToLower (unicodeLower w) inPath) ''.bck'' \<longrightarrow>
      main w [prog, ''decode'', inPath] = map_option exitWith (decode w inPath) \<and>
      main w [prog, ''run'', inPath] = map_option exitWith (run w inPath) \<and>
      (\<forall>cmd code w'. (cmd = ''decode'' \<or> cmd = ''run'') \<and>
          main w [prog, cmd, inPath] = Some (code, w') \<longrightarrow>
          (\<exists>evs. ioTrace w' = ioTrace w @ ReadFile inPath # evs))) \<and>
   (isASCII inPath \<longrightarrow>
      HasSuffix (ToLower (unicodeLower w) inPath) ''.bck'' =
        (4 \<le> length inPath \<and> map lowerByte (drop (length inPath - 4) inPath) = ''.bck''))"
proof (intro conjI impI)
  assume n: "\<not> HasSuffix (ToLower (unicodeLower w) inPath) ''.bck''"
  show r: "run w inPath = Some (Some InvalidFormat, w)" using n by (simp add: run_def)
  show mr: "main w [prog, ''run'', inPath] = Some (1, printErr InvalidFormat w)"
    using r by (simp add: main_def exitWith_def)
  show md: "main w [prog, ''decode'', inPath] =
      Some (2, printErrText (''Error: decode command only accepts .bck files'' @ [nl]) w)"
    using n by (simp add: main_def)
  show "\<forall>cmd code w'. (cmd = ''decode'' \<or> cmd = ''run'') \<and>
               main w [prog, cmd, inPath] = Some (code, w') \<longrightarrow>
               code \<noteq> 0 \<and> ioTrace w' = ioTrace w \<and> fsRead w' = fsRead w \<and> fsStat w' = fsStat w"
    using mr md by (auto simp: printErr_def printErrText_keeps)
next
  assume y: "HasSuffix (ToLower (unicodeLower w) inPath) ''.bck''"
  show md: "main w [prog, ''decode'', inPath] = map_option exitWith (decode w inPath)"
    using y by (simp add: main_def)
  show mr: "main w [prog, ''run'', inPath] = map_option exitWith (run w inPath)"
    by (simp add: main_def)
  have ex: "ioTrace (snd (exitWith r)) = ioTrace (snd r)" for r
    by (cases r) (auto simp: exitWith_def printErr_def printErrText_keeps split: option.splits)
  show "\<forall>cmd code w'. (cmd = ''decode'' \<or> cmd = ''run'') \<and>
               main w [prog, cmd, inPath] = Some (code, w') \<longrightarrow>
               (\<exists>evs. ioTrace w' = ioTrace w @ ReadFile inPath # evs)"
  proof (intro allI impI, elim conjE disjE)
    fix cmd code w'
    assume "cmd = ''decode''" and m: "main w [prog, cmd, inPath] = Some (code, w')"
    then obtain r where r: "decode w inPath = Some r" "exitWith r = (code, w')"
      using md by auto
    then show "\<exists>evs. ioTrace w' = ioTrace w @ ReadFile inPath # evs"
      using decode_reads_first[of w inPath "fst r" "snd r"] ex[of r] by simp
  next
    fix cmd code w'
    assume "cmd = ''run''" and m: "main w [prog, cmd, inPath] = Some (code, w')"
    then obtain r where r: "run w inPath = Some r" "exitWith r = (code, w')"
      using mr by auto
    then show "\<exists>evs. ioTrace w' = ioTrace w @ ReadFile inPath # evs"
      using run_reads_first[OF y, of "fst r" "snd r"] ex[of r] by simp
  qed
next
  assume "isASCII inPath"
  then show "HasSuffix (ToLower (unicodeLower w) inPath) ''.bck'' =
        (4 \<le> length inPath \<and> map lowerByte (drop (length inPath - 4) inPath) = ''.bck'')"
    by (simp add: ToLower_def HasSuffix_def drop_map eval_nat_numeral)
qed

theorem invalid_format_rejection_witness:
  "\<not> HasSuffix (ToLower (unicodeLower sampleWorld) ''hello.py'') ''.bck'' \<and>
   run sampleWorld ''hello.py'' = Some (Some InvalidFormat, sampleWorld) \<and>
   main sampleWorld [''backlang'', ''run'', ''hello.py''] =
     Some (1, printErr InvalidFormat sampleWorld) \<and>
   main sampleWorld [''backlang'', ''decode'', ''hello.py''] =
     Some (2, printErrText (''Error: decode command only accepts .bck files'' @ [nl]) sampleWorld) \<and>
   HasSuffix (ToLower (unicodeLower sampleWorld) ''file.BCK'') ''.bck'' \<and>
   main sampleWorld [''backlang'', ''decode'', ''file.BCK''] =
     map_option exitWith (decode sampleWorld ''file.BCK'') \<and>
   main sampleWorld [''backlang'', ''run'', ''file.BCK''] =
     map_option exitWith (run sampleWorld ''file.BCK'') \<and>
   \<not> isASCII kelvinPath \<and>
   HasSuffix (ToLower (unicodeLower kelvinWorld) kelvinPath) ''.bck'' \<and>
   main kelvinWorld [''backlang'', ''run'', kelvinPath] =
     map_option exitWith (run kelvinWorld kelvinPath) \<and>
   map_option (\<lambda>r. (fst r, ioTrace (snd r))) (main kelvinWorld [''backlang'', ''run'', kelvinPath]) =
     Some (1, [ReadFile kelvinPath])"
proof -
  have n: "\<not> HasSuffix (ToLower (unicodeLower sampleWorld) ''hello.py'') ''.bck''"
    by (simp add: HasSuffix_def ToLower_def isASCII_def lowerByte_def isUpperASCII_def)
  have y: "HasSuffix (ToLower (unicodeLower sampleWorld) ''file.BCK'') ''.bck''"
    by (simp add: HasSuffix_def ToLower_def isASCII_def lowerByte_def isUpperASCII_def
        char_of_def bit_0)
  have na: "\<not> isASCII kelvinPath" by (simp add: kelvinPath_def isASCII_def)
  have k: "HasSuffix (ToLower (unicodeLower kelvinWorld) kelvinPath) ''.bck''"
    using na by (simp add: ToLower_def kelvinWorld_def HasSuffix_def)
  have kr: "run kelvinWorld kelvinPath =
      Some (Some (FileNotFound (Base kelvinPath)), logEvent (ReadFile kelvinPath) kelvinWorld)"
    using k by (simp add: run_def osReadFile_def kelvinWorld_def world0_def)
  have kt: "ioTrace kelvinWorld = []" by (simp add: kelvinWorld_def world0_def)
  have km: "main kelvinWorld [''backlang'', ''run'', kelvinPath] =
      map_option exitWith (run kelvinWorld kelvinPath)"
    using invalid_format_rejection[of kelvinWorld kelvinPath "''backlang''",
        THEN conjunct2, THEN conjunct1] k by simp
  have "map_option (\<lambda>r. (fst r, ioTrace (snd r)))
          (main kelvinWorld [''backlang'', ''run'', kelvinPath]) = Some (1, [ReadFile kelvinPath])"
    unfolding km kr
    by (simp add: exitWith_def printErr_def printErrText_def logEvent_def kt)
  then show ?thesis
    using invalid_format_rejection[of sampleWorld "''hello.py''" "''backlang''", THEN conjunct1]
      invalid_format_rejection[of sampleWorld "''file.BCK''" "''backlang''",
        THEN conjunct2, THEN conjunct1] n y na k km
    by simp
qed

subsection \<open>Language detection\<close>

lemma anyShebang_iff: "anyShebang line ss \<longleftrightarrow> (\<exists>s\<in>set ss. HasPrefix line s)"
  by (induction ss) auto

lemma anyExtension_iff: "anyExtension ext es \<longleftrightarrow> ext \<in> set es"
  by (induction es) auto

lemma shebangLoop_find:
  "shebangLoop line ls = find (\<lambda>l. \<exists>s\<in>set (Shebangs l). HasPrefix line s) ls"
  by (induction ls) (simp_all add: anyShebang_iff)

lemma extensionLoop_find:
  "extensionLoop ext ls = find (\<lambda>l. ext \<in> set (Extensions l)) ls"
  by (induction ls) (simp_all add: anyExtension_iff)

lemma detectIn_result:
  assumes "fsRead w filePath = Inr content"
  shows "fst (detectIn ls w filePath) =
           (case (if HasPrefix (firstLineOf content) ''#!''
                  then find (\<lambda>l. \<exists>s\<in>set (Shebangs l). HasPrefix (firstLineOf content) s) ls
                  else None) of
              Some lang \<Rightarrow> Inr lang
            | None \<Rightarrow>
                (case find (\<lambda>l. ToLower (unicodeLower w) (Ext filePath) \<in> set (Extensions l)) ls of
                   Some lang \<Rightarrow> Inr lang
                 | None \<Rightarrow> Inl (NoInterpreterFound (Base filePath))))"
  using assms
  by (simp add: detectIn_def Let_def shebangLoop_find extensionLoop_find split: option.splits)

lemma TrimSpace_Nil: "TrimSpace [] = []"
  by (simp add: TrimSpace_def)

lemma firstLineOf_bytes:
  "firstLineOf content =
     (if length (takeWhile (\<lambda>c. c \<noteq> nl) content) < MaxScanTokenSize
      then TrimSpace (firstLineBytes content) else [])"
proof (cases "content = []")
  case True
  then show ?thesis
    by (simp add: firstLineOf_def scanFirst_def firstLineBytes_def dropCR_def TrimSpace_Nil
        MaxScanTokenSize_def)
next
  case False
  then show ?thesis
    by (simp add: firstLineOf_def scanFirst_def firstLineBytes_def Let_def not_le)
qed

text \<open>
  Claim C5 (detector priority), as amended. For every file that can be opened, over any
  registry. The first line of the file is the bytes before its first newline, without a
  final carriage return. When there are fewer than 65536 bytes before the first newline,
  the detector works on the trimmed first line: if it starts with \<^verbatim>\<open>#!\<close> and some
  descriptor has a shebang that is a prefix of it, the result is the first such descriptor
  of the registry, whatever the extension; otherwise the result is the first descriptor
  one of whose extensions equals the extension of the path after \<^verbatim>\<open>strings.ToLower\<close>;
  otherwise it is the error that no interpreter was found, carrying the base name of the
  path. When there are 65536 bytes or more before the first newline, the scanner gives no
  line and the detector takes the extension step alone. With the program's registry: a
  trimmed first line \<^verbatim>\<open>#!/usr/bin/env python3\<close> gives the Python descriptor, a file
  without shebang whose lower-cased extension is \<^verbatim>\<open>.py\<close> gives the Python descriptor, and
  a file with neither gives the error.
\<close>

theorem detector_priority:
  assumes "fsRead w filePath = Inr content"
  shows "fst (detectIn languages w filePath) =
           (let line = (if length (takeWhile (\<lambda>c. c \<noteq> nl) content) < MaxScanTokenSize
                        then TrimSpace (firstLineBytes content) else [])
            in case (if HasPrefix line ''#!''
                     then find (\<lambda>l. \<exists>s\<in>set (Shebangs l). HasPrefix line s) languages
                     else None) of
                 Some lang \<Rightarrow> Inr lang
               | None \<Rightarrow>
                   (case find (\<lambda>l. ToLower (unicodeLower w) (Ext filePath) \<in> set (Extensions l))
                           languages of
                      Some lang \<Rightarrow> Inr lang
                    | None \<Rightarrow> Inl (NoInterpreterFound (Base filePath)))) \<and>
         detectLanguage w filePath = detectIn getSupportedLanguages w filePath \<and>
         (length (takeWhile (\<lambda>c. c \<noteq> nl) content) < MaxScanTokenSize \<and>
          TrimSpace (firstLineBytes content) = ''#!/usr/bin/env python3'' \<longrightarrow>
            fst (detectLanguage w filePath) = Inr python) \<and>
         (length (takeWhile (\<lambda>c. c \<noteq> nl) content) < MaxScanTokenSize \<and>
          \<not> HasPrefix (TrimSpace (firstLineBytes content)) ''#!'' \<and>
          ToLower (unicodeLower w) (Ext filePath) = ''.py'' \<longrightarrow>
            fst (detectLanguage w filePath) = Inr python) \<and>
         (length (takeWhile (\<lambda>c. c \<noteq> nl) content) < MaxScanTokenSize \<and>
          \<not> HasPrefix (TrimSpace (firstLineBytes content)) ''#!'' \<and>
          ToLower (unicodeLower w) (Ext filePath) \<noteq> ''.py'' \<longrightarrow>
            fst (detectLanguage w filePath) = Inl (NoInterpreterFound (Base filePath))) \<and>
         (MaxScanTokenSize \<le> length (takeWhile (\<lambda>c. c \<noteq> nl) content) \<longrightarrow>
            fst (detectLanguage w filePath) =
              (if ToLower (unicodeLower w) (Ext filePath) = ''.py'' then Inr python
               else Inl (NoInterpreterFound (Base filePath))))"
proof -
  note g = detectIn_result[OF assms]
  have p1: "length (takeWhile (\<lambda>c. c \<noteq> nl) content) < MaxScanTokenSize \<Longrightarrow>
            TrimSpace (firstLineBytes content) = ''#!/usr/bin/env python3'' \<Longrightarrow>
            fst (detectLanguage w filePath) = Inr python"
    unfolding detectLanguage_def g
    by (simp add: firstLineOf_bytes getSupportedLanguages_def python_def HasPrefix_def)
  have p2: "length (takeWhile (\<lambda>c. c \<noteq> nl) content) < MaxScanTokenSize \<Longrightarrow>
            \<not> HasPrefix (TrimSpace (firstLineBytes content)) ''#!'' \<Longrightarrow>
            ToLower (unicodeLower w) (Ext filePath) = ''.py'' \<Longrightarrow>
            fst (detectLanguage w filePath) = Inr python"
    unfolding detectLanguage_def g
    by (simp add: firstLineOf_bytes getSupportedLanguages_def python_def)
  have p3: "length (takeWhile (\<lambda>c. c \<noteq> nl) content) < MaxScanTokenSize \<Longrightarrow>
            \<not> HasPrefix (TrimSpace (firstLineBytes content)) ''#!'' \<Longrightarrow>
            ToLower (unicodeLower w) (Ext filePath) \<noteq> ''.py'' \<Longrightarrow>
            fst (detectLanguage w filePath) = Inl (NoInterpreterFound (Base filePath))"
    unfolding detectLanguage_def g
    by (simp add: firstLineOf_bytes getSupportedLanguages_def)
  have p4: "MaxScanTokenSize \<le> length (takeWhile (\<lambda>c. c \<noteq> nl) content) \<Longrightarrow>
            fst (detectLanguage w filePath) =
              (if ToLower (unicodeLower w) (Ext filePath) = ''.py'' then Inr python
               else Inl (NoInterpreterFound (Base filePath)))"
    unfolding detectLanguage_def g
    by (simp add: firstLineOf_bytes getSupportedLanguages_def python_def HasPrefix_def)
  show ?thesis
    using g[of languages] p1 p2 p3 p4 by (simp add: detectLanguage_def firstLineOf_bytes Let_def)
qed

theorem detector_priority_witness:
  "fst (detectLanguage scriptWorld ''tool.xyz'') = Inr python \<and>
   fst (detectLanguage scriptWorld ''Lib.PY'') = Inr python \<and>
   fst (detectLanguage scriptWorld ''notes.txt'') = Inl (NoInterpreterFound ''notes.txt'') \<and>
   Name python = ''Python''"
proof -
  let ?U = "unicodeLower scriptWorld"
  have r: "fsRead scriptWorld ''tool.xyz'' = Inr toolScript"
    "fsRead scriptWorld ''Lib.PY'' = Inr libScript"
    "fsRead scriptWorld ''notes.txt'' = Inr ''hello''"
    by (simp_all add: scriptWorld_def withFile_def)
  have n: "length (takeWhile (\<lambda>c. c \<noteq> nl) toolScript) < MaxScanTokenSize"
    "length (takeWhile (\<lambda>c. c \<noteq> nl) libScript) < MaxScanTokenSize"
    "length (takeWhile (\<lambda>c. c \<noteq> nl) ''hello'') < MaxScanTokenSize"
    by (simp_all add: toolScript_def libScript_def MaxScanTokenSize_def nl_def cr_def)
  have l: "TrimSpace (firstLineBytes toolScript) = ''#!/usr/bin/env python3 -u''"
    "TrimSpace (firstLineBytes libScript) = ''print(2)''"
    "TrimSpace (firstLineBytes ''hello'') = ''hello''"
    by (simp_all add: toolScript_def libScript_def firstLineBytes_def
      dropCR_def TrimSpace_def
      spaceRunes_def HasPrefix_def HasSuffix_def nl_def cr_def Let_def)
  have x: "ToLower ?U (Ext ''tool.xyz'') = ''.xyz''"
    "ToLower ?U (Ext ''Lib.PY'') = ''.py''" "ToLower ?U (Ext ''notes.txt'') = ''.txt''"
    "Base ''notes.txt'' = ''notes.txt''"
    by (simp_all add: Ext_def ToLower_def isASCII_def lowerByte_def isUpperASCII_def
        Separator_def char_of_def bit_0 Base_bare)
  have p: "find (\<lambda>l. \<exists>s\<in>set (Shebangs l). HasPrefix ''#!/usr/bin/env python3 -u'' s)
             getSupportedLanguages = Some python"
    by (simp add: getSupportedLanguages_def python_def HasPrefix_def)
  have "fst (detectLanguage scriptWorld ''tool.xyz'') = Inr python"
    using detector_priority[OF r(1), of getSupportedLanguages, THEN conjunct1] n(1) l(1) p
    by (simp add: detectLanguage_def HasPrefix_def)
  moreover have "fst (detectLanguage scriptWorld ''Lib.PY'') = Inr python"
    using detector_priority[OF r(2), of getSupportedLanguages,
        THEN conjunct2, THEN conjunct2, THEN conjunct2, THEN conjunct1] n(2) l(2) x(2)
    by (simp add: HasPrefix_def)
  moreover have "fst (detectLanguage scriptWorld ''notes.txt'') = Inl (NoInterpreterFound ''notes.txt'')"
    using detector_priority[OF r(3), of getSupportedLanguages,
        THEN conjunct2, THEN conjunct2, THEN conjunct2, THEN conjunct2, THEN conjunct1]
      n(3) l(3) x(3,4)
    by (simp add: HasPrefix_def)
  moreover have "Name python = ''Python''" by (simp add: python_def getSupportedLanguages_def)
  ultimately show ?thesis by simp
qed

text \<open>A line without white space at either end is its own trimmed line.\<close>

lemma trimLeftLoop_none: "spaceAtStart spaceRunes s = 0 \<Longrightarrow> trimLeftLoop n s = s"
  by (cases n) simp_all

lemma trimRightLoop_none: "spaceAtEnd spaceRunes s = 0 \<Longrightarrow> trimRightLoop n s = s"
  by (cases n) simp_all

lemma HasSuffix_last: "HasSuffix s r \<Longrightarrow> r \<noteq> [] \<Longrightarrow> last s = last r"
proof -
  assume h: "HasSuffix s r" and r: "r \<noteq> []"
  then have "s = take (length s - length r) s @ r"
    by (metis HasSuffix_def append_take_drop_id)
  then show ?thesis using r by (metis last_appendR)
qed

lemma spaceAtEnd_none:
  "\<forall>r\<in>set rs. r \<noteq> [] \<and> last r \<noteq> last s \<Longrightarrow> spaceAtEnd rs s = 0"
  by (induction rs) (auto dest: HasSuffix_last)

lemma longLine_facts:
  "nl \<notin> set longLine" "length longLine = 65554" "last longLine = CHR ''x''"
  "HasPrefix longLine ''#!/usr/bin/python''" "spaceAtStart spaceRunes longLine = 0"
  by (simp_all add: longLine_def nl_def HasPrefix_def spaceRunes_def)

lemma TrimSpace_longLine: "TrimSpace longLine = longLine"
proof -
  have "spaceAtEnd spaceRunes longLine = 0"
    by (rule spaceAtEnd_none) (simp add: longLine_facts(3) spaceRunes_def)
  then show ?thesis
    by (simp add: TrimSpace_def longLine_facts(5) trimLeftLoop_none trimRightLoop_none)
qed

text \<open>
  Claim C5 as stated fails on a file whose first line is too long for the scanner. The
  first line of \<open>longScript\<close> is \<open>longLine\<close>, which trimming leaves as it is and which
  starts with the shebang \<^verbatim>\<open>#!/usr/bin/python\<close> of the Python descriptor; the extension
  \<^verbatim>\<open>.xyz\<close> is in no descriptor. The detector does not return the Python descriptor: it
  fails with the error that no interpreter was found.
\<close>

theorem long_first_line_skips_shebang:
  "firstLineBytes longScript = longLine \<and>
   TrimSpace longLine = longLine \<and>
   HasPrefix longLine ''#!'' \<and>
   HasPrefix longLine ''#!/usr/bin/python'' \<and>
   ''#!/usr/bin/python'' \<in> set (Shebangs python) \<and>
   fst (detectLanguage (withFile ''tool.xyz'' longScript world0) ''tool.xyz'') =
     Inl (NoInterpreterFound ''tool.xyz'')"
proof -
  have t: "takeWhile (\<lambda>c. c \<noteq> nl) longScript = longLine"
    using takeWhile_body[OF longLine_facts(1)] by (simp add: longScript_def)
  have "longLine \<noteq> []" by (simp add: longLine_def)
  then have "longLine ! (length longLine - 1) = CHR ''x''"
    using longLine_facts(3) by (simp add: last_conv_nth)
  then have f: "firstLineBytes longScript = longLine"
    by (simp add: firstLineBytes_def t dropCR_def cr_def)
  have e: "firstLineOf longScript = []"
    by (simp add: firstLineOf_bytes t longLine_facts MaxScanTokenSize_def)
  have r: "fsRead (withFile ''tool.xyz'' longScript world0) ''tool.xyz'' = Inr longScript"
    by (simp add: withFile_def)
  have x: "ToLower (unicodeLower (withFile ''tool.xyz'' longScript world0)) (Ext ''tool.xyz'') = ''.xyz''"
    "Base ''tool.xyz'' = ''tool.xyz''"
    by (simp_all add: Ext_def ToLower_def isASCII_def lowerByte_def isUpperASCII_def
        Separator_def Base_bare)
  have "fst (detectLanguage (withFile ''tool.xyz'' longScript world0) ''tool.xyz'') =
     Inl (NoInterpreterFound ''tool.xyz'')"
    unfolding detectLanguage_def detectIn_result[OF r]
    by (simp add: e x HasPrefix_def getSupportedLanguages_def)
  moreover have "HasPrefix longLine ''#!''" by (simp add: longLine_def HasPrefix_def)
  moreover have "''#!/usr/bin/python'' \<in> set (Shebangs python)"
    by (simp add: python_def getSupportedLanguages_def)
  ultimately show ?thesis using f TrimSpace_longLine longLine_facts(4) by simp
qed

end
